theory Spec2Isabelle
  imports Main
begin

section \<open>Errors, panics and outcomes\<close>

text \<open>
  Go errors as values. \<open>Errorf\<close> is an error made by \<^verbatim>\<open>errors.Errorf\<close> with its
  formatted message; \<open>Wrap e m\<close> is \<^verbatim>\<open>errors.Wrap(e, m)\<close> (and \<^verbatim>\<open>Wrapf\<close> with the
  message already formatted): it keeps the cause \<open>e\<close>. A Go \<^verbatim>\<open>error\<close> result is an
  \<open>error option\<close>, \<open>None\<close> being \<^verbatim>\<open>nil\<close>.
\<close>

datatype error = Errorf string | Wrap error string

fun Error :: "error \<Rightarrow> string" where
  "Error (Errorf m) = m"
| "Error (Wrap e m) = m @ '': '' @ Error e"

text \<open>
  What a panic carries: the error of \<^verbatim>\<open>template.Must\<close> (the template did not parse),
  the error of \<^verbatim>\<open>Execute\<close> passed to \<^verbatim>\<open>panic(err)\<close> (a field the data does not
  have), or the call of a nil function value.
\<close>

datatype panic = ParseFailure | ExecFailure string | NilFunc

text \<open>
  A call returns, or panics, or (third constructor) leaves the fragment of the template
  language this development covers; no theorem below speaks about the third case.
\<close>

datatype 'a outcome = Return 'a | Panic panic | OutsideModel

section \<open>The template engine (package html/template)\<close>

text \<open>
  The source imports \<^verbatim>\<open>html/template\<close>. The fragment covered: literal text without
  \<^verbatim>\<open><\<close> (so the escaper stays in the HTML text context) and actions of the form
  \<^verbatim>\<open>{{.Name}}\<close>, \<open>Name\<close> an ASCII identifier. An action that is opened and never
  closed is a parse error in Go whatever it holds. Every other action is
  \<open>Unmodelled\<close>.
\<close>

fun starts_with :: "string \<Rightarrow> string \<Rightarrow> bool" where
  "starts_with [] s = True"
| "starts_with (p # ps) [] = False"
| "starts_with (p # ps) (c # cs) = (p = c \<and> starts_with ps cs)"

text \<open>\<open>split_at d s\<close>: the text before and after the first occurrence of \<open>d\<close> in \<open>s\<close>.\<close>

fun split_at :: "string \<Rightarrow> string \<Rightarrow> (string \<times> string) option" where
  "split_at d [] = (if d = [] then Some ([], []) else None)"
| "split_at d (c # cs) =
     (if starts_with d (c # cs) then Some ([], drop (length d) (c # cs))
      else (case split_at d cs of
              None \<Rightarrow> None
            | Some (a, b) \<Rightarrow> Some (c # a, b)))"

definition is_letter :: "char \<Rightarrow> bool" where
  "is_letter c =
     (let n = (of_char c :: nat)
      in (65 \<le> n \<and> n \<le> 90) \<or> (97 \<le> n \<and> n \<le> 122) \<or> n = 95)"

definition is_digit :: "char \<Rightarrow> bool" where
  "is_digit c = (let n = (of_char c :: nat) in 48 \<le> n \<and> n \<le> 57)"

datatype node = TextNode string | FieldNode string

datatype parse_result = Parsed "node list" | ParseError | Unmodelled

text \<open>The body of an action: \<open>.Name\<close> is a field of the data; anything else is not covered.\<close>

fun parse_action :: "string \<Rightarrow> node option" where
  "parse_action [] = None"
| "parse_action (c # cs) =
     (case cs of
        [] \<Rightarrow> None
      | d # ds \<Rightarrow>
          if c = CHR ''.'' \<and> is_letter d \<and> list_all (\<lambda>x. is_letter x \<or> is_digit x) ds
          then Some (FieldNode cs) else None)"

definition text_node :: "string \<Rightarrow> node list" where
  "text_node t = (if t = [] then [] else [TextNode t])"

lemma starts_with_length: "starts_with d s \<Longrightarrow> length d \<le> length s"
  by (induction d s rule: starts_with.induct) auto

lemma split_at_length:
  "split_at d s = Some (a, b) \<Longrightarrow> length a + length d + length b = length s"
proof (induction s arbitrary: a b)
  case Nil
  then show ?case by (simp split: if_splits)
next
  case (Cons c cs)
  show ?case
  proof (cases "starts_with d (c # cs)")
    case True
    with Cons.prems starts_with_length [OF True] show ?thesis by auto
  next
    case False
    with Cons show ?thesis by (auto split: option.splits)
  qed
qed

function Parse :: "string \<Rightarrow> parse_result" where
  "Parse s =
     (case split_at ''{{'' s of
        None \<Rightarrow> Parsed (text_node s)
      | Some (txt, rest) \<Rightarrow>
          (case split_at ''}}'' rest of
             None \<Rightarrow> ParseError
           | Some (body, rest') \<Rightarrow>
               (case parse_action body of
                  None \<Rightarrow> Unmodelled
                | Some n \<Rightarrow>
                    (case Parse rest' of
                       Parsed ns \<Rightarrow> Parsed (text_node txt @ n # ns)
                     | r \<Rightarrow> r))))"
  by pat_completeness auto
termination
proof (relation "measure length")
  show "wf (measure length)" by simp
next
  fix s :: string and p t1 r1 q t2 r2 n
  assume "split_at ''{{'' s = Some p" "(t1, r1) = p"
    "split_at ''}}'' r1 = Some q" "(t2, r2) = q"
  then have "length t1 + 2 + length r1 = length s"
    and "length t2 + 2 + length r2 = length r1"
    using split_at_length [of "''{{''" s t1 r1]
      split_at_length [of "''}}''" r1 t2 r2] by simp_all
  then show "(r2, s) \<in> measure length" by simp
qed

declare Parse.simps [simp del]

text \<open>
  In the HTML text context the escaper appended to \<^verbatim>\<open>{{.Version}}\<close> rewrites, byte by
  byte, NUL to U+FFFD (three bytes in UTF-8) and the six characters
  \<^verbatim>\<open>" & ' + < >\<close> to character references; every other byte is copied.
\<close>

definition htmlReplacement :: "char \<Rightarrow> string" where
  "htmlReplacement c =
     (if c = CHR 0x00 then [CHR 0xEF, CHR 0xBF, CHR 0xBD]
      else if c = CHR 0x22 then ''&#34;''
      else if c = CHR 0x26 then ''&amp;''
      else if c = CHR 0x27 then ''&#39;''
      else if c = CHR 0x2B then ''&#43;''
      else if c = CHR 0x3C then ''&lt;''
      else if c = CHR 0x3E then ''&gt;''
      else [c])"

fun htmlEscape :: "string \<Rightarrow> string" where
  "htmlEscape [] = []"
| "htmlEscape (c # cs) = htmlReplacement c @ htmlEscape cs"

text \<open>
  Execution with the data \<^verbatim>\<open>struct{ Version string }{version}\<close>: text is copied, the
  field \<open>Version\<close> is written escaped, any other field is an execution error.
\<close>

fun exec_nodes :: "node list \<Rightarrow> string \<Rightarrow> panic + string" where
  "exec_nodes [] version = Inr []"
| "exec_nodes (TextNode t # ns) version =
     (case exec_nodes ns version of Inl e \<Rightarrow> Inl e | Inr r \<Rightarrow> Inr (t @ r))"
| "exec_nodes (FieldNode f # ns) version =
     (if f = ''Version''
      then (case exec_nodes ns version of
              Inl e \<Rightarrow> Inl e
            | Inr r \<Rightarrow> Inr (htmlEscape version @ r))
      else Inl (ExecFailure f))"

fun leaves_text_context :: "node \<Rightarrow> bool" where
  "leaves_text_context (TextNode t) = (CHR 0x3C \<in> set t)"
| "leaves_text_context (FieldNode f) = False"

text \<open>
  The four statements the source repeats for the locator, for every key and for every
  value: \<^verbatim>\<open>template.Must(template.New(..).Parse(text))\<close>, \<^verbatim>\<open>Execute\<close> into a buffer,
  \<^verbatim>\<open>panic(err)\<close> on an error, and the buffer's string.
\<close>

definition expand :: "string \<Rightarrow> string \<Rightarrow> string outcome" where
  "expand text version =
     (case Parse text of
        ParseError \<Rightarrow> Panic ParseFailure
      | Unmodelled \<Rightarrow> OutsideModel
      | Parsed ns \<Rightarrow>
          if list_ex leaves_text_context ns then OutsideModel
          else (case exec_nodes ns version of
                  Inl e \<Rightarrow> Panic e
                | Inr r \<Rightarrow> Return r))"

section \<open>The data model of compiler.go\<close>

text \<open>
  \<^verbatim>\<open>ExtractFunc\<close> is a function type; the two functions the catalogue uses are the
  constructors. A field of that type may be nil (\<open>None\<close>), as in the zero value of
  \<^verbatim>\<open>CompilerPackage\<close>.
\<close>

datatype ExtractFunc = Unzip | Untar

text \<open>
  A Go map is a reference. The store \<open>maps\<close> of the state below holds the content of
  every map object, an association list without repeated keys; the field \<open>Paths\<close> is
  the address of one (\<open>None\<close> is the nil map). Copying a \<^verbatim>\<open>CompilerPackage\<close> copies
  the address, not the content.
\<close>

type_synonym gomap = "(string \<times> string) list"

record CompilerPackage =
  URL :: string
  Method :: "ExtractFunc option"
  Paths :: "nat option"

definition zero_CompilerPackage :: CompilerPackage where
  "zero_CompilerPackage = \<lparr>URL = [], Method = None, Paths = None\<rparr>"

text \<open>
  What the functions outside this file do is seen through the calls made to them: every
  call is recorded with its arguments and its results.
  \<open>EvPrint\<close> is the line written by \<^verbatim>\<open>fmt.Printf\<close> (without its newline), \<open>EvPrintMap\<close>
  the map written by \<^verbatim>\<open>fmt.Println\<close>.
\<close>

datatype event =
    EvPrint string
  | EvPrintMap gomap
  | EvGetCacheDir string "error option"
  | EvFromCache string string string "ExtractFunc option" gomap bool "error option"
  | EvExists string bool
  | EvMkdirAll string "error option"
  | EvFromNet string string string string "error option"
  | EvExtract ExtractFunc string string gomap "error option"

text \<open>
  The state: the three package-level variables, the store of map objects with the next
  free address, the world outside the process (file system and network, of any type
  \<open>'w\<close>) and the calls made so far.
\<close>

record 'w state =
  pawnMacOS :: CompilerPackage
  pawnLinux :: CompilerPackage
  pawnWin32 :: CompilerPackage
  maps :: "nat \<Rightarrow> gomap"
  next_map :: nat
  world :: 'w
  trace :: "event list"

text \<open>The package-level \<^verbatim>\<open>var ( ... )\<close> block, lines 22 to 47: the state at start-up.\<close>

definition darwin_paths :: gomap where
  "darwin_paths =
     [(''pawnc-{{.Version}}-darwin/bin/pawncc'', ''pawncc''),
      (''pawnc-{{.Version}}-darwin/lib/libpawnc.dylib'', ''libpawnc.dylib'')]"

definition linux_paths :: gomap where
  "linux_paths =
     [(''pawnc-{{.Version}}-linux/bin/pawncc'', ''pawncc''),
      (''pawnc-{{.Version}}-linux/lib/libpawnc.so'', ''libpawnc.so'')]"

definition windows_paths :: gomap where
  "windows_paths =
     [(''pawnc-{{.Version}}-windows/bin/pawncc.exe'', ''pawncc.exe''),
      (''pawnc-{{.Version}}-windows/bin/pawnc.dll'', ''pawnc.dll'')]"

definition darwin_url :: string where
  "darwin_url =
     ''https://github.com/Zeex/pawn/releases/download/v{{.Version}}/pawnc-{{.Version}}-darwin.zip''"

definition linux_url :: string where
  "linux_url =
     ''https://github.com/Zeex/pawn/releases/download/v{{.Version}}/pawnc-{{.Version}}-linux.tar.gz''"

definition windows_url :: string where
  "windows_url =
     ''https://github.com/Zeex/pawn/releases/download/v{{.Version}}/pawnc-{{.Version}}-windows.zip''"

definition init_maps :: "nat \<Rightarrow> gomap" where
  "init_maps a =
     (if a = 0 then darwin_paths else if a = 1 then linux_paths
      else if a = 2 then windows_paths else [])"

definition init_state :: "'w \<Rightarrow> 'w state" where
  "init_state w =
     \<lparr>pawnMacOS = \<lparr>URL = darwin_url, Method = Some Unzip, Paths = Some 0\<rparr>,
      pawnLinux = \<lparr>URL = linux_url, Method = Some Untar, Paths = Some 1\<rparr>,
      pawnWin32 = \<lparr>URL = windows_url, Method = Some Unzip, Paths = Some 2\<rparr>,
      maps = init_maps, next_map = 3, world = w, trace = []\<rparr>"

text \<open>The content of the map a field refers to; a nil map has no entries.\<close>

definition deref :: "'w state \<Rightarrow> nat option \<Rightarrow> gomap" where
  "deref s r = (case r of None \<Rightarrow> [] | Some a \<Rightarrow> maps s a)"

text \<open>\<^verbatim>\<open>m[k] = v\<close>: the value of an existing key is replaced, a new key is added.\<close>

fun map_assign :: "string \<Rightarrow> string \<Rightarrow> gomap \<Rightarrow> gomap" where
  "map_assign k v [] = [(k, v)]"
| "map_assign k v (p # ps) = (if fst p = k then (k, v) # ps else p # map_assign k v ps)"

section \<open>The functions this file calls and does not define\<close>

text \<open>
  \<^verbatim>\<open>GetCacheDir\<close>, \<^verbatim>\<open>FromCache\<close>, \<^verbatim>\<open>FromNet\<close>, \<^verbatim>\<open>exists\<close>, \<^verbatim>\<open>Unzip\<close> and \<^verbatim>\<open>Untar\<close> are
  defined elsewhere in the package; \<^verbatim>\<open>os.MkdirAll\<close>, \<^verbatim>\<open>url.Parse\<close>, \<^verbatim>\<open>filepath.Base\<close> and
  \<^verbatim>\<open>runtime.GOOS\<close> belong to the Go library. They are parameters: any functions on any
  world. \<open>url_Parse_Path\<close> is \<^verbatim>\<open>url.Parse\<close> followed by the field \<^verbatim>\<open>Path\<close>; \<open>Extract m\<close>
  is the call of the function value \<open>m\<close>.
\<close>

record 'w env =
  GOOS :: string
  url_Parse_Path :: "string \<Rightarrow> error + string"
  filepath_Base :: "string \<Rightarrow> string"
  GetCacheDir :: "'w \<Rightarrow> (string \<times> error option) \<times> 'w"
  FromCache :: "string \<Rightarrow> string \<Rightarrow> string \<Rightarrow> ExtractFunc option \<Rightarrow> gomap \<Rightarrow> 'w
                \<Rightarrow> (bool \<times> error option) \<times> 'w"
  FromNet :: "string \<Rightarrow> string \<Rightarrow> string \<Rightarrow> 'w \<Rightarrow> (string \<times> error option) \<times> 'w"
  exists :: "string \<Rightarrow> 'w \<Rightarrow> bool"
  MkdirAll :: "string \<Rightarrow> 'w \<Rightarrow> error option \<times> 'w"
  Extract :: "ExtractFunc \<Rightarrow> string \<Rightarrow> string \<Rightarrow> gomap \<Rightarrow> 'w \<Rightarrow> error option \<times> 'w"

definition emit :: "event \<Rightarrow> 'w state \<Rightarrow> 'w state" where
  "emit e s = s\<lparr>trace := trace s @ [e]\<rparr>"

definition call_GetCacheDir :: "'w env \<Rightarrow> 'w state \<Rightarrow> (string \<times> error option) \<times> 'w state" where
  "call_GetCacheDir env s =
     (case GetCacheDir env (world s) of
        ((d, e), w) \<Rightarrow> ((d, e), emit (EvGetCacheDir d e) (s\<lparr>world := w\<rparr>)))"

definition call_FromCache ::
  "'w env \<Rightarrow> string \<Rightarrow> string \<Rightarrow> string \<Rightarrow> ExtractFunc option \<Rightarrow> gomap \<Rightarrow> 'w state
   \<Rightarrow> (bool \<times> error option) \<times> 'w state" where
  "call_FromCache env cacheDir filename dir method paths s =
     (case FromCache env cacheDir filename dir method paths (world s) of
        ((hit, e), w) \<Rightarrow>
          ((hit, e), emit (EvFromCache cacheDir filename dir method paths hit e) (s\<lparr>world := w\<rparr>)))"

definition call_FromNet ::
  "'w env \<Rightarrow> string \<Rightarrow> string \<Rightarrow> string \<Rightarrow> 'w state \<Rightarrow> (string \<times> error option) \<times> 'w state" where
  "call_FromNet env url cacheDir filename s =
     (case FromNet env url cacheDir filename (world s) of
        ((path, e), w) \<Rightarrow>
          ((path, e), emit (EvFromNet url cacheDir filename path e) (s\<lparr>world := w\<rparr>)))"

definition call_exists :: "'w env \<Rightarrow> string \<Rightarrow> 'w state \<Rightarrow> bool \<times> 'w state" where
  "call_exists env path s =
     (let b = exists env path (world s) in (b, emit (EvExists path b) s))"

definition call_MkdirAll :: "'w env \<Rightarrow> string \<Rightarrow> 'w state \<Rightarrow> error option \<times> 'w state" where
  "call_MkdirAll env path s =
     (case MkdirAll env path (world s) of
        (e, w) \<Rightarrow> (e, emit (EvMkdirAll path e) (s\<lparr>world := w\<rparr>)))"

definition call_Extract ::
  "'w env \<Rightarrow> ExtractFunc \<Rightarrow> string \<Rightarrow> string \<Rightarrow> gomap \<Rightarrow> 'w state \<Rightarrow> error option \<times> 'w state" where
  "call_Extract env m path dir paths s =
     (case Extract env m path dir paths (world s) of
        (e, w) \<Rightarrow> (e, emit (EvExtract m path dir paths e) (s\<lparr>world := w\<rparr>)))"

section \<open>GetCompilerPackageInfo\<close>

text \<open>
  The loop of lines 96 to 112 over the entries of \<^verbatim>\<open>pkg.Paths\<close>, writing into the map
  at address \<open>newPaths\<close>. Go leaves the order of the iteration open; the model takes the
  entries in the order of the list.
\<close>

fun resolve_paths :: "string \<Rightarrow> nat \<Rightarrow> gomap \<Rightarrow> 'w state \<Rightarrow> unit outcome \<times> 'w state" where
  "resolve_paths version newPaths [] s = (Return (), s)"
| "resolve_paths version newPaths ((source, target) # entries) s =
     (case expand source version of
        Panic p \<Rightarrow> (Panic p, s)
      | OutsideModel \<Rightarrow> (OutsideModel, s)
      | Return sourceString \<Rightarrow>
          (case expand target version of
             Panic p \<Rightarrow> (Panic p, s)
           | OutsideModel \<Rightarrow> (OutsideModel, s)
           | Return targetString \<Rightarrow>
               resolve_paths version newPaths entries
                 (s\<lparr>maps := (maps s)
                    (newPaths := map_assign sourceString targetString (maps s newPaths))\<rparr>)))"

text \<open>The choice of lines 76 to 85; \<open>None\<close> is the last \<^verbatim>\<open>else\<close>.\<close>

definition select_package :: "'w state \<Rightarrow> string \<Rightarrow> CompilerPackage option" where
  "select_package s os =
     (if os = ''windows'' then Some (pawnWin32 s)
      else if os = ''linux'' then Some (pawnLinux s)
      else if os = ''darwin'' then Some (pawnMacOS s)
      else None)"

definition GetCompilerPackageInfo ::
  "'w env \<Rightarrow> string \<Rightarrow> string \<Rightarrow> 'w state
   \<Rightarrow> (CompilerPackage \<times> string \<times> error option) outcome \<times> 'w state" where
  "GetCompilerPackageInfo env os version s =
     (case select_package s os of
        None \<Rightarrow>
          (Return (zero_CompilerPackage, [], Some (Errorf (''unsupported OS '' @ GOOS env))), s)
      | Some pkg \<Rightarrow>
          (case expand (URL pkg) version of
             Panic p \<Rightarrow> (Panic p, s)
           | OutsideModel \<Rightarrow> (OutsideModel, s)
           | Return u \<Rightarrow>
               (let pkg1 = pkg\<lparr>URL := u\<rparr>;
                    newPaths = next_map s;
                    s1 = s\<lparr>maps := (maps s)(newPaths := []), next_map := Suc newPaths\<rparr>
                in case resolve_paths version newPaths (deref s (Paths pkg1)) s1 of
                     (Panic p, s2) \<Rightarrow> (Panic p, s2)
                   | (OutsideModel, s2) \<Rightarrow> (OutsideModel, s2)
                   | (Return _, s2) \<Rightarrow>
                       (let pkg2 = pkg1\<lparr>Paths := Some newPaths\<rparr>
                        in case url_Parse_Path env (URL pkg2) of
                             Inl e \<Rightarrow> (Return (pkg2, [], Some e), s2)
                           | Inr path \<Rightarrow>
                               (Return (pkg2, filepath_Base env path, None), s2)))))"

section \<open>CompilerFromCache, CompilerFromNet, GetCompilerPackage\<close>

definition CompilerFromCache ::
  "'w env \<Rightarrow> string \<Rightarrow> string \<Rightarrow> string \<Rightarrow> 'w state
   \<Rightarrow> (bool \<times> error option) outcome \<times> 'w state" where
  "CompilerFromCache env cacheDir version dir s =
     (case GetCompilerPackageInfo env (GOOS env) version s of
        (Panic p, s1) \<Rightarrow> (Panic p, s1)
      | (OutsideModel, s1) \<Rightarrow> (OutsideModel, s1)
      | (Return (pkg, filename, Some e), s1) \<Rightarrow> (Return (False, Some e), s1)
      | (Return (pkg, filename, None), s1) \<Rightarrow>
          (case call_FromCache env cacheDir filename dir (Method pkg) (deref s1 (Paths pkg)) s1 of
             ((hit, err), s2) \<Rightarrow>
               if \<not> hit then (Return (False, None), s2) else (Return (hit, err), s2)))"

definition CompilerFromNet ::
  "'w env \<Rightarrow> string \<Rightarrow> string \<Rightarrow> string \<Rightarrow> 'w state \<Rightarrow> error option outcome \<times> 'w state" where
  "CompilerFromNet env cacheDir version dir s =
     (case GetCompilerPackageInfo env (GOOS env) version s of
        (Panic p, s1) \<Rightarrow> (Panic p, s1)
      | (OutsideModel, s1) \<Rightarrow> (OutsideModel, s1)
      | (Return (pkg, filename, Some e), s1) \<Rightarrow>
          (Return (Some (Wrap e ''package info mismatch'')), s1)
      | (Return (pkg, filename, None), s1) \<Rightarrow>
          (let s2 = emit (EvPrintMap (deref s1 (Paths pkg))) s1;
               (dirExists, s3) = call_exists env dir s2;
               (mkErr, s4) = (if \<not> dirExists then call_MkdirAll env dir s3 else (None, s3))
           in case mkErr of
                Some e \<Rightarrow> (Return (Some (Wrap e (''failed to create dir '' @ dir))), s4)
              | None \<Rightarrow>
                  (let (cacheExists, s5) = call_exists env cacheDir s4;
                       (mkErr2, s6) =
                         (if \<not> cacheExists then call_MkdirAll env cacheDir s5 else (None, s5))
                   in case mkErr2 of
                        Some e \<Rightarrow>
                          (Return (Some (Wrap e (''failed to create cache '' @ cacheDir))), s6)
                      | None \<Rightarrow>
                          (case call_FromNet env (URL pkg) cacheDir filename s6 of
                             ((path, Some e), s7) \<Rightarrow>
                               (Return (Some (Wrap e ''failed to download package'')), s7)
                           | ((path, None), s7) \<Rightarrow>
                               (case Method pkg of
                                  None \<Rightarrow> (Panic NilFunc, s7)
                                | Some m \<Rightarrow>
                                    (case call_Extract env m path dir (deref s7 (Paths pkg)) s7 of
                                       (Some e, s8) \<Rightarrow>
                                         (Return (Some (Wrap e (''failed to unzip package '' @ path))),
                                          s8)
                                     | (None, s8) \<Rightarrow> (Return None, s8)))))))"

definition GetCompilerPackage ::
  "'w env \<Rightarrow> string \<Rightarrow> string \<Rightarrow> 'w state \<Rightarrow> error option outcome \<times> 'w state" where
  "GetCompilerPackage env version dir s =
     (let s0 = emit (EvPrint ''Downloading compiler package'') s
      in case call_GetCacheDir env s0 of
           ((cacheDir, Some e), s1) \<Rightarrow> (Return (Some e), s1)
         | ((cacheDir, None), s1) \<Rightarrow>
             (case CompilerFromCache env cacheDir version dir s1 of
                (Panic p, s2) \<Rightarrow> (Panic p, s2)
              | (OutsideModel, s2) \<Rightarrow> (OutsideModel, s2)
              | (Return (hit, Some e), s2) \<Rightarrow>
                  (Return (Some (Wrap e (''failed to get package '' @ version @ '' from cache''))),
                   s2)
              | (Return (hit, None), s2) \<Rightarrow>
                  if hit then (Return None, s2)
                  else (case CompilerFromNet env cacheDir version dir s2 of
                          (Panic p, s3) \<Rightarrow> (Panic p, s3)
                        | (OutsideModel, s3) \<Rightarrow> (OutsideModel, s3)
                        | (Return (Some e), s3) \<Rightarrow>
                            (Return
                               (Some (Wrap e (''failed to get package '' @ version @ '' from net''))),
                             s3)
                        | (Return None, s3) \<Rightarrow> (Return None, s3))))"

section \<open>Observing a run\<close>

definition new_events :: "'w state \<Rightarrow> 'w state \<Rightarrow> event list" where
  "new_events s s' = drop (length (trace s)) (trace s')"

fun is_FromCache :: "event \<Rightarrow> bool" where
  "is_FromCache (EvFromCache c f d m ps hit e) = True"
| "is_FromCache _ = False"

fun is_FromNet :: "event \<Rightarrow> bool" where
  "is_FromNet (EvFromNet u c f p e) = True"
| "is_FromNet _ = False"

fun is_Extract :: "event \<Rightarrow> bool" where
  "is_Extract (EvExtract m p d ps e) = True"
| "is_Extract _ = False"

fun is_dir_call :: "event \<Rightarrow> bool" where
  "is_dir_call (EvExists p b) = True"
| "is_dir_call (EvMkdirAll p e) = True"
| "is_dir_call _ = False"

text \<open>The calls only \<open>CompilerFromNet\<close> makes.\<close>

fun net_stage_event :: "event \<Rightarrow> bool" where
  "net_stage_event (EvPrintMap ps) = True"
| "net_stage_event (EvExists p b) = True"
| "net_stage_event (EvMkdirAll p e) = True"
| "net_stage_event (EvFromNet u c f p e) = True"
| "net_stage_event (EvExtract m p d ps e) = True"
| "net_stage_event _ = False"

text \<open>\<open>preceded P Q tr\<close>: no event with \<open>Q\<close> comes in \<open>tr\<close> before the first event with \<open>P\<close>.\<close>

fun preceded :: "(event \<Rightarrow> bool) \<Rightarrow> (event \<Rightarrow> bool) \<Rightarrow> event list \<Rightarrow> bool" where
  "preceded P Q [] = True"
| "preceded P Q (e # es) = (if P e then True else if Q e then False else preceded P Q es)"

text \<open>The directory \<open>d\<close> is known to exist: \<open>exists\<close> said so, or \<open>MkdirAll\<close> made it.\<close>

fun ensures :: "string \<Rightarrow> event \<Rightarrow> bool" where
  "ensures d (EvExists p b) = (p = d \<and> b)"
| "ensures d (EvMkdirAll p e) = (p = d \<and> e = None)"
| "ensures d _ = False"

text \<open>A fetch that succeeded and returned the path \<open>p\<close>.\<close>

fun fetched :: "string \<Rightarrow> event \<Rightarrow> bool" where
  "fetched p (EvFromNet u c f p' e) = (p' = p \<and> e = None)"
| "fetched p _ = False"

text \<open>
  The allocator's invariant for the catalogue: the maps the three package-level variables
  refer to lie below the next free address.
\<close>

definition catalog_allocated :: "'w state \<Rightarrow> bool" where
  "catalog_allocated s =
     list_all (\<lambda>pkg. case Paths pkg of None \<Rightarrow> True | Some a \<Rightarrow> a < next_map s)
       [pawnMacOS s, pawnLinux s, pawnWin32 s]"

section \<open>Placeholders\<close>

definition placeholder :: string where
  "placeholder = ''{{.Version}}''"

fun contains :: "string \<Rightarrow> string \<Rightarrow> bool" where
  "contains p [] = (p = [])"
| "contains p (c # cs) = (starts_with p (c # cs) \<or> contains p cs)"

text \<open>
  The spec's resolver: every occurrence of the placeholder, from left to right, is
  replaced by the version string as it is. The first argument counts the characters of
  a placeholder still to skip.
\<close>

fun substitute :: "nat \<Rightarrow> string \<Rightarrow> string \<Rightarrow> string" where
  "substitute n [] version = []"
| "substitute (Suc n) (c # cs) version = substitute n cs version"
| "substitute 0 (c # cs) version =
     (if starts_with placeholder (c # cs)
      then version @ substitute (length placeholder - 1) cs version
      else c # substitute 0 cs version)"

definition spec_resolve :: "string \<Rightarrow> string \<Rightarrow> string" where
  "spec_resolve template version = substitute 0 template version"

text \<open>The bytes the escaper of the HTML text context rewrites.\<close>

definition html_special :: "char \<Rightarrow> bool" where
  "html_special c = (c \<in> set [CHR 0x00, CHR 0x22, CHR 0x26, CHR 0x27, CHR 0x2B, CHR 0x3C, CHR 0x3E])"

text \<open>The templates of a descriptor: the locator, the keys and the values of its path map.\<close>

definition templates_of :: "'w state \<Rightarrow> CompilerPackage \<Rightarrow> string list" where
  "templates_of s pkg =
     URL pkg # map fst (deref s (Paths pkg)) @ map snd (deref s (Paths pkg))"

fun returns_error :: "(CompilerPackage \<times> string \<times> error option) outcome \<Rightarrow> bool" where
  "returns_error (Return (pkg, filename, Some e)) = True"
| "returns_error _ = False"

text \<open>
  A template the engine rejects, as far as the fragment goes: it does not parse (an action
  is never closed), or it parses and names a field other than \<open>Version\<close>, on which
  \<^verbatim>\<open>Execute\<close> fails.
\<close>

fun unknown_field :: "node \<Rightarrow> bool" where
  "unknown_field (FieldNode f) = (f \<noteq> ''Version'')"
| "unknown_field (TextNode t) = False"

definition engine_rejects :: "string \<Rightarrow> bool" where
  "engine_rejects t =
     (case Parse t of
        ParseError \<Rightarrow> True
      | Unmodelled \<Rightarrow> False
      | Parsed ns \<Rightarrow> list_ex unknown_field ns)"

text \<open>The catalogue is as the \<^verbatim>\<open>var\<close> block initialised it.\<close>

definition catalog_intact :: "'w state \<Rightarrow> bool" where
  "catalog_intact s =
     (pawnMacOS s = \<lparr>URL = darwin_url, Method = Some Unzip, Paths = Some 0\<rparr> \<and>
      pawnLinux s = \<lparr>URL = linux_url, Method = Some Untar, Paths = Some 1\<rparr> \<and>
      pawnWin32 s = \<lparr>URL = windows_url, Method = Some Unzip, Paths = Some 2\<rparr> \<and>
      maps s 0 = darwin_paths \<and> maps s 1 = linux_paths \<and> maps s 2 = windows_paths)"

section \<open>A small world to run the functions in\<close>

text \<open>
  A world is the list of the paths that exist. The cache holds a file when its path is in
  the list, a download adds it, an extraction adds the installed files.
\<close>

text \<open>
  \<^verbatim>\<open>url.Parse\<close> followed by \<^verbatim>\<open>.Path\<close>, for a URL that starts with \<^verbatim>\<open>https://\<close> and a host,
  as every locator of the catalogue does: a control byte is refused; the fragment is cut
  at the first \<^verbatim>\<open>#\<close> and the query at the first \<^verbatim>\<open>?\<close>; the path is what follows the host,
  with its \<^verbatim>\<open>%XX\<close> escapes decoded; an escape that is not two hexadecimal digits, in the
  path or in the fragment, is an error.
\<close>

definition is_hex :: "char \<Rightarrow> bool" where
  "is_hex c =
     (let n = (of_char c :: nat)
      in (48 \<le> n \<and> n \<le> 57) \<or> (65 \<le> n \<and> n \<le> 70) \<or> (97 \<le> n \<and> n \<le> 102))"

definition unhex :: "char \<Rightarrow> nat" where
  "unhex c =
     (let n = (of_char c :: nat)
      in if n \<le> 57 then n - 48 else if n \<le> 70 then n - 55 else n - 87)"

fun unescape :: "string \<Rightarrow> error + string" where
  "unescape [] = Inr []"
| "unescape (c # cs) =
     (if c = CHR ''%''
      then (case cs of
              h1 # h2 # cs' \<Rightarrow>
                if is_hex h1 \<and> is_hex h2
                then (case unescape cs' of
                        Inl e \<Rightarrow> Inl e
                      | Inr r \<Rightarrow> Inr (char_of (16 * unhex h1 + unhex h2) # r))
                else Inl (Errorf ''invalid URL escape'')
            | _ \<Rightarrow> Inl (Errorf ''invalid URL escape''))
      else (case unescape cs of Inl e \<Rightarrow> Inl e | Inr r \<Rightarrow> Inr (c # r)))"

definition is_control :: "char \<Rightarrow> bool" where
  "is_control c = (let n = (of_char c :: nat) in n < 32 \<or> n = 127)"

definition test_url_path :: "string \<Rightarrow> error + string" where
  "test_url_path u =
     (if list_ex is_control u then Inl (Errorf ''invalid control character in URL'')
      else if \<not> starts_with ''https://'' u then Inl (Errorf ''not an https URL'')
      else
        (let before_fragment = takeWhile (\<lambda>c. c \<noteq> CHR ''#'') u;
             fragment = drop (Suc (length before_fragment)) u;
             before_query = takeWhile (\<lambda>c. c \<noteq> CHR ''?'') before_fragment;
             after_host = dropWhile (\<lambda>c. c \<noteq> CHR ''/'') (drop 8 before_query)
         in case unescape after_host of
              Inl e \<Rightarrow> Inl e
            | Inr path \<Rightarrow>
                (case unescape fragment of Inl e \<Rightarrow> Inl e | Inr f \<Rightarrow> Inr path)))"

text \<open>
  \<^verbatim>\<open>filepath.Base\<close> with the separator \<^verbatim>\<open>/\<close>: the last element of the path, trailing
  separators removed first; \<^verbatim>\<open>.\<close> for the empty path and \<^verbatim>\<open>/\<close> for a path of separators.
\<close>

definition test_base :: "string \<Rightarrow> string" where
  "test_base p =
     (if p = [] then ''.''
      else (let q = rev (dropWhile (\<lambda>c. c = CHR ''/'') (rev p))
            in if q = [] then ''/'' else rev (takeWhile (\<lambda>c. c \<noteq> CHR ''/'') (rev q))))"

definition test_env :: "string list env" where
  "test_env =
     \<lparr>GOOS = ''linux'',
      url_Parse_Path = test_url_path,
      filepath_Base = test_base,
      GetCacheDir = (\<lambda>w. ((''/cache'', None), w)),
      FromCache = (\<lambda>cacheDir filename dir method paths w.
         ((cacheDir @ ''/'' @ filename \<in> set w, None), w)),
      FromNet = (\<lambda>url cacheDir filename w.
         ((cacheDir @ ''/'' @ filename, None), (cacheDir @ ''/'' @ filename) # w)),
      exists = (\<lambda>path w. path \<in> set w),
      MkdirAll = (\<lambda>path w. (None, path # w)),
      Extract = (\<lambda>m path dir paths w. (None, map (\<lambda>(k, v). dir @ ''/'' @ v) paths @ w))\<rparr>"

text \<open>
  Two variants of the cache: one whose lookup misses with an error (the cached file is not
  an archive), one whose lookup reports a hit together with an error.
\<close>

definition corrupt_env :: "string list env" where
  "corrupt_env = test_env\<lparr>FromCache :=
      (\<lambda>cacheDir filename dir method paths w. ((False, Some (Errorf ''not an archive'')), w))\<rparr>"

definition confused_env :: "string list env" where
  "confused_env = test_env\<lparr>FromCache :=
      (\<lambda>cacheDir filename dir method paths w. ((True, Some (Errorf ''short read'')), w))\<rparr>"

text \<open>A network that is down.\<close>

definition offline_env :: "string list env" where
  "offline_env = test_env\<lparr>FromNet :=
      (\<lambda>url cacheDir filename w. (([], Some (Errorf ''connection refused'')), w))\<rparr>"

text \<open>A catalogue whose linux locator has an action that is never closed.\<close>

definition broken_state :: "string list state" where
  "broken_state = (init_state [])\<lparr>pawnLinux :=
      \<lparr>URL = ''https://example.org/pawnc-{{.Version-linux.tar.gz'',
       Method = Some Untar, Paths = Some 1\<rparr>\<rparr>"

text \<open>A catalogue in which a key of the linux path map names a field that does not exist.\<close>

definition broken_key_state :: "string list state" where
  "broken_key_state = (init_state [])\<lparr>maps := init_maps(1 :=
      [(''pawnc-{{.Version}}-linux/bin/pawncc'', ''pawncc''),
       (''pawnc-{{.Versoin}}-linux/lib/libpawnc.so'', ''libpawnc.so'')])\<rparr>"

section \<open>The cache store, the fetcher and the extraction, as the spec describes them\<close>

text \<open>
  \<^verbatim>\<open>FromCache\<close>, \<^verbatim>\<open>FromNet\<close>, \<^verbatim>\<open>Unzip\<close>, \<^verbatim>\<open>Untar\<close>, \<^verbatim>\<open>GetCacheDir\<close> and \<^verbatim>\<open>exists\<close> belong to
  this package and are not in the file; what a second run finds depends on them. An
  archive is its format and its members (path and content). The store keeps apart, as
  the spec's data model does, the cache entries, what each URL serves (nothing when the
  fetch fails), the directories and the installed files. Writes do not fail.
\<close>

type_synonym archive = "ExtractFunc \<times> (string \<times> string) list"

record store =
  cacheRoot :: string
  cached :: "string \<Rightarrow> archive option"
  remote :: "string \<Rightarrow> archive option"
  dirs :: "string list"
  installed :: "string \<Rightarrow> string option"

text \<open>
  Modelled from the spec: the extraction strategy (section 4.3), in place of the missing
  \<^verbatim>\<open>Unzip\<close> and \<^verbatim>\<open>Untar\<close>. "For every key in pathMap, locate that member inside the
  archive; if absent, fail with MissingMemberError naming the member"; "for every
  located member, write it to destinationDir/value, creating intermediate directories as
  needed"; files written before a failure stay.
\<close>

fun spec_extract :: "(string \<times> string) list \<Rightarrow> string \<Rightarrow> gomap \<Rightarrow> store \<Rightarrow> error option \<times> store" where
  "spec_extract members dir [] w = (None, w)"
| "spec_extract members dir ((k, v) # ps) w =
     (case map_of members k of
        None \<Rightarrow> (Some (Errorf (''missing member '' @ k)), w)
      | Some content \<Rightarrow>
          spec_extract members dir ps
            (w\<lparr>dirs := dir # dirs w,
               installed := (installed w)(dir @ ''/'' @ v \<mapsto> content)\<rparr>))"

text \<open>
  Modelled from the spec: the call of an extraction function on the archive file at
  \<open>path\<close> (sections 4.3 and 4.6, step 4); a file that is missing or of the other format
  cannot be extracted.
\<close>

definition spec_Extract ::
  "ExtractFunc \<Rightarrow> string \<Rightarrow> string \<Rightarrow> gomap \<Rightarrow> store \<Rightarrow> error option \<times> store" where
  "spec_Extract m path dir paths w =
     (case cached w path of
        None \<Rightarrow> (Some (Errorf (''no archive at '' @ path)), w)
      | Some (format, members) \<Rightarrow>
          if format = m then spec_extract members dir paths w
          else (Some (Errorf (''not an archive of this format: '' @ path)), w))"

text \<open>
  Modelled from the spec: \<^verbatim>\<open>satisfy\<close> of the Cache Store (section 4.4), in place of the
  missing \<^verbatim>\<open>FromCache\<close>. "If the named file is absent, returns hit = false with no error.
  If present, attempts extraction via the given strategy; a successful extraction
  returns hit = true; an extraction failure on a present cached file is reported as a
  distinct error (CorruptCacheError)."
\<close>

definition spec_FromCache ::
  "string \<Rightarrow> string \<Rightarrow> string \<Rightarrow> ExtractFunc option \<Rightarrow> gomap \<Rightarrow> store
   \<Rightarrow> (bool \<times> error option) \<times> store" where
  "spec_FromCache cacheDir filename dir method paths w =
     (case cached w (cacheDir @ ''/'' @ filename) of
        None \<Rightarrow> ((False, None), w)
      | Some a \<Rightarrow>
          (case method of
             None \<Rightarrow> ((False, Some (Errorf ''corrupt cache entry: no extraction strategy'')), w)
           | Some m \<Rightarrow>
               (case spec_Extract m (cacheDir @ ''/'' @ filename) dir paths w of
                  (None, w') \<Rightarrow> ((True, None), w')
                | (Some e, w') \<Rightarrow> ((False, Some (Wrap e ''corrupt cache entry'')), w'))))"

text \<open>
  Modelled from the spec: \<^verbatim>\<open>fetch\<close> of the Network Fetcher with \<^verbatim>\<open>store\<close> of the Cache
  Store (sections 4.5 and 4.4), in place of the missing \<^verbatim>\<open>FromNet\<close>. It "writes the
  downloaded bytes to cacheDir/filename" and returns that path; "a failed fetch must not
  leave a Cache Entry in present state for that filename".
\<close>

definition spec_FromNet ::
  "string \<Rightarrow> string \<Rightarrow> string \<Rightarrow> store \<Rightarrow> (string \<times> error option) \<times> store" where
  "spec_FromNet url cacheDir filename w =
     (case remote w url of
        None \<Rightarrow> (([], Some (Errorf (''fetch failed: '' @ url))), w)
      | Some a \<Rightarrow>
          ((cacheDir @ ''/'' @ filename, None),
           w\<lparr>cached := (cached w)(cacheDir @ ''/'' @ filename \<mapsto> a)\<rparr>))"

text \<open>
  Modelled from the spec: the environment of the orchestrator, in place of the missing
  \<^verbatim>\<open>GetCacheDir\<close> ("a cache-root directory path, resolved by an external cache directory
  provider", section 6) and \<^verbatim>\<open>exists\<close>; \<^verbatim>\<open>MkdirAll\<close> makes the directory. The platform and
  the two functions of the Go library stay parameters.
\<close>

definition spec_env ::
  "string \<Rightarrow> (string \<Rightarrow> error + string) \<Rightarrow> (string \<Rightarrow> string) \<Rightarrow> store env" where
  "spec_env goos url_path base =
     \<lparr>GOOS = goos,
      url_Parse_Path = url_path,
      filepath_Base = base,
      GetCacheDir = (\<lambda>w. ((cacheRoot w, None), w)),
      FromCache = spec_FromCache,
      FromNet = spec_FromNet,
      exists = (\<lambda>path w. path \<in> set (dirs w)),
      MkdirAll = (\<lambda>path w. (None, w\<lparr>dirs := path # dirs w\<rparr>)),
      Extract = spec_Extract\<rparr>"

text \<open>Every key of the path map is a member of the archive.\<close>

definition members_present :: "(string \<times> string) list \<Rightarrow> gomap \<Rightarrow> bool" where
  "members_present members paths = list_all (\<lambda>(k, v). map_of members k \<noteq> None) paths"

text \<open>
  The descriptor \<open>(U, m, P)\<close> is what \<open>GetCompilerPackageInfo\<close> resolves for \<open>os\<close> and
  \<open>version\<close> in every state that holds the initial catalogue.
\<close>

definition resolves_to ::
  "'w state itself \<Rightarrow> string \<Rightarrow> string \<Rightarrow> string \<Rightarrow> ExtractFunc \<Rightarrow> gomap \<Rightarrow> bool" where
  "resolves_to T os version U m P =
     (\<forall>(s :: 'w state) env. catalog_intact s \<longrightarrow>
        GetCompilerPackageInfo env os version s =
          (case url_Parse_Path env U of
             Inl e \<Rightarrow>
               (Return (\<lparr>URL = U, Method = Some m, Paths = Some (next_map s)\<rparr>, [], Some e),
                s\<lparr>maps := (maps s)(next_map s := P), next_map := Suc (next_map s)\<rparr>)
           | Inr path \<Rightarrow>
               (Return (\<lparr>URL = U, Method = Some m, Paths = Some (next_map s)\<rparr>,
                        filepath_Base env path, None),
                s\<lparr>maps := (maps s)(next_map s := P), next_map := Suc (next_map s)\<rparr>)))"

text \<open>
  A store with an empty cache, where the locator of linux 3.10.4 serves an archive that
  has the two files of the path map and one more.
\<close>

definition fresh_store :: store where
  "fresh_store =
     \<lparr>cacheRoot = ''/cache'',
      cached = (\<lambda>path. None),
      remote = (\<lambda>url.
        if url = ''https://github.com/Zeex/pawn/releases/download/v3.10.4/pawnc-3.10.4-linux.tar.gz''
        then Some (Untar, [(''pawnc-3.10.4-linux/bin/pawncc'', ''compiler''),
                           (''pawnc-3.10.4-linux/lib/libpawnc.so'', ''library''),
                           (''pawnc-3.10.4-linux/README'', ''notes'')])
        else None),
      dirs = [],
      installed = (\<lambda>path. None)\<rparr>"

section \<open>What a call leaves untouched\<close>

lemma resolve_paths_frame:
  "resolve_paths version a es s = (r, s') \<Longrightarrow>
     trace s' = trace s \<and> world s' = world s \<and> next_map s' = next_map s \<and>
     pawnMacOS s' = pawnMacOS s \<and> pawnLinux s' = pawnLinux s \<and> pawnWin32 s' = pawnWin32 s \<and>
     (\<forall>b. b \<noteq> a \<longrightarrow> maps s' b = maps s b)"
proof (induction es arbitrary: s)
  case Nil
  then show ?case by simp
next
  case (Cons p es)
  obtain k v where p: "p = (k, v)" by (cases p)
  from Cons.prems show ?case unfolding p
    by (auto split: outcome.splits dest!: Cons.IH)
qed

lemma GetCompilerPackageInfo_frame:
  assumes "GetCompilerPackageInfo env os version s = (r, s')"
  shows "trace s' = trace s \<and> world s' = world s \<and> next_map s \<le> next_map s' \<and>
     pawnMacOS s' = pawnMacOS s \<and> pawnLinux s' = pawnLinux s \<and> pawnWin32 s' = pawnWin32 s \<and>
     (\<forall>b. b < next_map s \<longrightarrow> maps s' b = maps s b)"
  using assms unfolding GetCompilerPackageInfo_def Let_def
  by (auto split: option.splits outcome.splits prod.splits sum.splits dest!: resolve_paths_frame)

lemma CompilerFromCache_events:
  assumes "CompilerFromCache env cacheDir version dir s = (r, s')"
  shows "\<exists>evs. trace s' = trace s @ evs \<and> list_all is_FromCache evs"
  using assms unfolding CompilerFromCache_def call_FromCache_def emit_def
  by (auto split: option.splits outcome.splits prod.splits if_splits
      dest!: GetCompilerPackageInfo_frame)

lemma FromCache_not_net_stage: "is_FromCache x \<Longrightarrow> \<not> net_stage_event x"
  by (cases x) simp_all

lemma CompilerFromNet_no_info:
  assumes "CompilerFromNet env cacheDir version dir s = (r, s')"
    and "GetCompilerPackageInfo env (GOOS env) version s = (ro, s1)"
    and "\<forall>pkg fn. ro \<noteq> Return (pkg, fn, None)"
  shows "new_events s s' = []"
  using assms GetCompilerPackageInfo_frame [OF assms(2)]
  unfolding CompilerFromNet_def new_events_def
  by (auto split: outcome.splits option.splits)

lemma deref_frame [simp]:
  "deref (s\<lparr>world := w\<rparr>) r = deref s r" "deref (s\<lparr>trace := t\<rparr>) r = deref s r"
  by (cases r; simp add: deref_def)+

lemma CompilerFromNet_resolved:
  assumes run: "CompilerFromNet env cacheDir version dir s = (r, s')"
    and info: "GetCompilerPackageInfo env (GOOS env) version s = (Return (pkg, fn, None), s1)"
  shows "preceded (ensures cacheDir) is_FromNet (new_events s s')"
    and "length (filter is_FromNet (new_events s s')) \<le> 1"
    and "EvFromNet u c f p (Some e) \<in> set (new_events s s') \<Longrightarrow>
           r = Return (Some (Wrap e ''failed to download package'')) \<and>
           \<not> list_ex is_Extract (new_events s s')"
    and "EvExtract m p d ps x \<in> set (new_events s s') \<Longrightarrow>
           Method pkg = Some m \<and> d = dir \<and> ps = deref s1 (Paths pkg) \<and>
           preceded (fetched p) is_Extract (new_events s s')"
  using run GetCompilerPackageInfo_frame [OF info] unfolding CompilerFromNet_def info
  by (auto simp: new_events_def call_exists_def call_MkdirAll_def call_FromNet_def
        call_Extract_def emit_def Let_def
      split: prod.splits option.splits if_splits)

lemma preceded_skip:
  "list_all (\<lambda>e. \<not> P e \<and> \<not> Q e) xs \<Longrightarrow> preceded P Q (xs @ ys) = preceded P Q ys"
  by (induction xs) auto

lemma CompilerFromCache_no_error:
  assumes "CompilerFromCache env cacheDir version dir s = (Return (hit, None), s')"
  shows "\<exists>ev. trace s' = trace s @ [ev] \<and> is_FromCache ev"
  using assms unfolding CompilerFromCache_def call_FromCache_def emit_def
  by (auto split: option.splits outcome.splits prod.splits if_splits
      dest!: GetCompilerPackageInfo_frame)

lemma CompilerFromNet_install_dir:
  assumes run: "CompilerFromNet env cacheDir version dir s = (r, s')"
  shows "preceded (ensures dir) (\<lambda>e. is_FromNet e \<or> is_Extract e) (new_events s s')"
    and "list_all net_stage_event (new_events s s')"
    and "\<exists>evs. trace s' = trace s @ evs"
proof -
  obtain ro s1 where info: "GetCompilerPackageInfo env (GOOS env) version s = (ro, s1)"
    by (cases "GetCompilerPackageInfo env (GOOS env) version s")
  have "preceded (ensures dir) (\<lambda>e. is_FromNet e \<or> is_Extract e) (new_events s s') \<and>
     list_all net_stage_event (new_events s s') \<and> (\<exists>evs. trace s' = trace s @ evs)"
  proof (cases "\<exists>pkg fn. ro = Return (pkg, fn, None)")
    case False
    then show ?thesis
      using run info GetCompilerPackageInfo_frame [OF info]
      unfolding CompilerFromNet_def new_events_def
      by (auto split: outcome.splits option.splits)
  next
    case True
    then obtain pkg fn where ro: "ro = Return (pkg, fn, None)" by blast
    show ?thesis
      using run GetCompilerPackageInfo_frame [OF info] unfolding CompilerFromNet_def info ro
      by (auto simp: new_events_def call_exists_def call_MkdirAll_def call_FromNet_def
          call_Extract_def emit_def Let_def
          split: prod.splits option.splits if_splits)
  qed
  then show "preceded (ensures dir) (\<lambda>e. is_FromNet e \<or> is_Extract e) (new_events s s')"
    and "list_all net_stage_event (new_events s s')"
    and "\<exists>evs. trace s' = trace s @ evs" by blast+
qed


lemma preceded_none: "list_all (\<lambda>e. \<not> Q e) xs \<Longrightarrow> preceded P Q xs"
  by (induction xs) auto

lemma FromCache_event_kinds:
  "is_FromCache e \<Longrightarrow> \<not> ensures d e \<and> \<not> is_FromNet e \<and> \<not> is_Extract e \<and> \<not> is_dir_call e"
  by (cases e) simp_all

lemma resolve_paths_panics:
  assumes "list_ex (\<lambda>t. \<exists>p. expand t version = Panic p) (map fst es @ map snd es)"
    and "list_all (\<lambda>t. expand t version \<noteq> OutsideModel) (map fst es @ map snd es)"
  shows "\<exists>p s'. resolve_paths version a es s = (Panic p, s')"
  using assms
proof (induction es arbitrary: s)
  case Nil
  then show ?case by simp
next
  case (Cons kv es)
  obtain k v where kv: "kv = (k, v)" by (cases kv)
  show ?case
  proof (cases "expand k version")
    case (Return k')
    show ?thesis
    proof (cases "expand v version")
      case (Return v')
      with \<open>expand k version = Return k'\<close> Cons.prems kv
      have "list_ex (\<lambda>t. \<exists>p. expand t version = Panic p) (map fst es @ map snd es)"
        and "list_all (\<lambda>t. expand t version \<noteq> OutsideModel) (map fst es @ map snd es)"
        by (auto simp: list_ex_iff list_all_iff)
      from Cons.IH [OF this] Return \<open>expand k version = Return k'\<close> kv show ?thesis by simp
    next
      case (Panic p)
      with \<open>expand k version = Return k'\<close> kv show ?thesis by simp
    next
      case OutsideModel
      with Cons.prems(2) kv show ?thesis by simp
    qed
  next
    case (Panic p)
    with kv show ?thesis by simp
  next
    case OutsideModel
    with Cons.prems(2) kv show ?thesis by simp
  qed
qed

section \<open>Where a placeholder can occur\<close>

lemma starts_with_stop:
  "y \<notin> set p \<Longrightarrow> starts_with p (xs @ y # zs) = starts_with p xs"
  by (induction p xs rule: starts_with.induct) auto

lemma contains_split:
  "y \<notin> set p \<Longrightarrow> p \<noteq> [] \<Longrightarrow>
   contains p (xs @ y # zs) = (contains p xs \<or> contains p zs)"
proof (induction xs)
  case Nil
  then show ?case by (cases p) auto
next
  case (Cons x xs)
  have "starts_with p (x # xs @ y # zs) = starts_with p (x # xs)"
    using starts_with_stop [OF Cons.prems(1), of "x # xs" zs] by simp
  with Cons show ?case by auto
qed

lemma contains_one:
  assumes "p \<noteq> []" "y \<notin> set p" "z \<notin> set p"
  shows "contains p (xs @ y # E @ z # zs) = (contains p xs \<or> contains p E \<or> contains p zs)"
  using assms by (simp add: contains_split)

lemma contains_two:
  assumes "p \<noteq> []" "y \<notin> set p" "z \<notin> set p" "y2 \<notin> set p" "z2 \<notin> set p"
  shows "contains p (xs @ y # E @ z # ms @ y2 # E2 @ z2 # zs) =
     (contains p xs \<or> contains p E \<or> contains p ms \<or> contains p E2 \<or> contains p zs)"
  using assms by (simp add: contains_split)

text \<open>The characters the escaper writes in place of another.\<close>

lemma htmlReplacement_cases:
  "htmlReplacement c = [c] \<or>
   (\<exists>r rs. htmlReplacement c = r # rs \<and> r \<notin> set placeholder \<and> set rs \<inter> set placeholder = {})"
  by (simp add: htmlReplacement_def placeholder_def)

lemma contains_skip:
  "set xs \<inter> set p = {} \<Longrightarrow> p \<noteq> [] \<Longrightarrow> contains p (xs @ ys) = contains p ys"
proof (induction xs)
  case Nil
  then show ?case by simp
next
  case (Cons x xs)
  then have "\<not> starts_with p (x # xs @ ys)" by (cases p) auto
  with Cons show ?case by simp
qed

lemma starts_with_htmlEscape:
  "set q \<subseteq> set placeholder \<Longrightarrow> starts_with q (htmlEscape v) \<Longrightarrow> starts_with q v"
proof (induction q v rule: starts_with.induct)
  case (1 s)
  then show ?case by simp
next
  case (2 p ps)
  then show ?case by simp
next
  case (3 p ps c cs)
  from htmlReplacement_cases [of c] show ?case
  proof
    assume "htmlReplacement c = [c]"
    with 3 show ?thesis by simp
  next
    assume "\<exists>r rs. htmlReplacement c = r # rs \<and> r \<notin> set placeholder \<and>
      set rs \<inter> set placeholder = {}"
    then obtain r rs where "htmlReplacement c = r # rs" "r \<notin> set placeholder" by blast
    with 3 show ?thesis by auto
  qed
qed

lemma contains_htmlEscape:
  "contains placeholder (htmlEscape v) \<Longrightarrow> contains placeholder v"
proof (induction v)
  case Nil
  then show ?case by simp
next
  case (Cons c cs)
  from htmlReplacement_cases [of c] show ?case
  proof
    assume a: "htmlReplacement c = [c]"
    with Cons.prems have "starts_with placeholder (htmlEscape (c # cs)) \<or> contains placeholder (htmlEscape cs)"
      by simp
    then show ?thesis
      using starts_with_htmlEscape [of placeholder "c # cs"] Cons.IH by auto
  next
    assume "\<exists>r rs. htmlReplacement c = r # rs \<and> r \<notin> set placeholder \<and>
      set rs \<inter> set placeholder = {}"
    then obtain r rs where r: "htmlReplacement c = r # rs" "set (r # rs) \<inter> set placeholder = {}"
      by auto
    have "placeholder \<noteq> []" by (simp add: placeholder_def)
    from contains_skip [OF r(2) this, of "htmlEscape cs"] Cons.prems r(1)
    have "contains placeholder (htmlEscape cs)" by simp
    with Cons.IH show ?thesis by simp
  qed
qed

section \<open>Resolving the catalogue\<close>

lemma Parse_catalog:
  "Parse darwin_url = Parsed [TextNode ''https://github.com/Zeex/pawn/releases/download/v'',
      FieldNode ''Version'', TextNode ''/pawnc-'', FieldNode ''Version'', TextNode ''-darwin.zip'']"
  "Parse linux_url = Parsed [TextNode ''https://github.com/Zeex/pawn/releases/download/v'',
      FieldNode ''Version'', TextNode ''/pawnc-'', FieldNode ''Version'', TextNode ''-linux.tar.gz'']"
  "Parse windows_url = Parsed [TextNode ''https://github.com/Zeex/pawn/releases/download/v'',
      FieldNode ''Version'', TextNode ''/pawnc-'', FieldNode ''Version'', TextNode ''-windows.zip'']"
  "Parse ''pawnc-{{.Version}}-darwin/bin/pawncc'' = Parsed [TextNode ''pawnc-'', FieldNode ''Version'', TextNode ''-darwin/bin/pawncc'']"
  "Parse ''pawnc-{{.Version}}-darwin/lib/libpawnc.dylib'' = Parsed [TextNode ''pawnc-'', FieldNode ''Version'', TextNode ''-darwin/lib/libpawnc.dylib'']"
  "Parse ''pawnc-{{.Version}}-linux/bin/pawncc'' = Parsed [TextNode ''pawnc-'', FieldNode ''Version'', TextNode ''-linux/bin/pawncc'']"
  "Parse ''pawnc-{{.Version}}-linux/lib/libpawnc.so'' = Parsed [TextNode ''pawnc-'', FieldNode ''Version'', TextNode ''-linux/lib/libpawnc.so'']"
  "Parse ''pawnc-{{.Version}}-windows/bin/pawncc.exe'' = Parsed [TextNode ''pawnc-'', FieldNode ''Version'', TextNode ''-windows/bin/pawncc.exe'']"
  "Parse ''pawnc-{{.Version}}-windows/bin/pawnc.dll'' = Parsed [TextNode ''pawnc-'', FieldNode ''Version'', TextNode ''-windows/bin/pawnc.dll'']"
  "Parse ''pawncc'' = Parsed [TextNode ''pawncc'']"
  "Parse ''libpawnc.dylib'' = Parsed [TextNode ''libpawnc.dylib'']"
  "Parse ''libpawnc.so'' = Parsed [TextNode ''libpawnc.so'']"
  "Parse ''pawncc.exe'' = Parsed [TextNode ''pawncc.exe'']"
  "Parse ''pawnc.dll'' = Parsed [TextNode ''pawnc.dll'']"
  unfolding darwin_url_def linux_url_def windows_url_def by code_simp+

lemma expand_catalog:
  "expand darwin_url v = Return (''https://github.com/Zeex/pawn/releases/download/'' @ CHR ''v'' #
      htmlEscape v @ CHR ''/'' # ''pawnc'' @ CHR ''-'' # htmlEscape v @ CHR ''-'' # ''darwin.zip'')"
  "expand linux_url v = Return (''https://github.com/Zeex/pawn/releases/download/'' @ CHR ''v'' #
      htmlEscape v @ CHR ''/'' # ''pawnc'' @ CHR ''-'' # htmlEscape v @ CHR ''-'' # ''linux.tar.gz'')"
  "expand windows_url v = Return (''https://github.com/Zeex/pawn/releases/download/'' @ CHR ''v'' #
      htmlEscape v @ CHR ''/'' # ''pawnc'' @ CHR ''-'' # htmlEscape v @ CHR ''-'' # ''windows.zip'')"
  "expand ''pawnc-{{.Version}}-darwin/bin/pawncc'' v = Return (''pawnc'' @ CHR ''-'' # htmlEscape v @ CHR ''-'' # ''darwin/bin/pawncc'')"
  "expand ''pawnc-{{.Version}}-darwin/lib/libpawnc.dylib'' v = Return (''pawnc'' @ CHR ''-'' # htmlEscape v @ CHR ''-'' # ''darwin/lib/libpawnc.dylib'')"
  "expand ''pawnc-{{.Version}}-linux/bin/pawncc'' v = Return (''pawnc'' @ CHR ''-'' # htmlEscape v @ CHR ''-'' # ''linux/bin/pawncc'')"
  "expand ''pawnc-{{.Version}}-linux/lib/libpawnc.so'' v = Return (''pawnc'' @ CHR ''-'' # htmlEscape v @ CHR ''-'' # ''linux/lib/libpawnc.so'')"
  "expand ''pawnc-{{.Version}}-windows/bin/pawncc.exe'' v = Return (''pawnc'' @ CHR ''-'' # htmlEscape v @ CHR ''-'' # ''windows/bin/pawncc.exe'')"
  "expand ''pawnc-{{.Version}}-windows/bin/pawnc.dll'' v = Return (''pawnc'' @ CHR ''-'' # htmlEscape v @ CHR ''-'' # ''windows/bin/pawnc.dll'')"
  "expand ''pawncc'' v = Return ''pawncc''"
  "expand ''libpawnc.dylib'' v = Return ''libpawnc.dylib''"
  "expand ''libpawnc.so'' v = Return ''libpawnc.so''"
  "expand ''pawncc.exe'' v = Return ''pawncc.exe''"
  "expand ''pawnc.dll'' v = Return ''pawnc.dll''"
  by (simp_all add: expand_def Parse_catalog)

text \<open>The call on a state that holds the initial catalogue, for each platform.\<close>

lemma info_darwin:
  assumes "catalog_intact s"
  shows "\<exists>fn err. GetCompilerPackageInfo env ''darwin'' v s =
     (Return (\<lparr>URL = ''https://github.com/Zeex/pawn/releases/download/'' @ CHR ''v'' #
        htmlEscape v @ CHR ''/'' # ''pawnc'' @ CHR ''-'' # htmlEscape v @ CHR ''-'' # ''darwin.zip'',
        Method = Some Unzip, Paths = Some (next_map s)\<rparr>, fn, err),
      s\<lparr>maps := (maps s)(next_map s :=
          [(''pawnc'' @ CHR ''-'' # htmlEscape v @ CHR ''-'' # ''darwin/bin/pawncc'', ''pawncc''),
           (''pawnc'' @ CHR ''-'' # htmlEscape v @ CHR ''-'' # ''darwin/lib/libpawnc.dylib'', ''libpawnc.dylib'')]),
        next_map := Suc (next_map s)\<rparr>)"
  using assms
  by (simp add: catalog_intact_def GetCompilerPackageInfo_def select_package_def expand_catalog
     deref_def darwin_paths_def Let_def split: sum.splits)

lemma info_linux:
  assumes "catalog_intact s"
  shows "\<exists>fn err. GetCompilerPackageInfo env ''linux'' v s =
     (Return (\<lparr>URL = ''https://github.com/Zeex/pawn/releases/download/'' @ CHR ''v'' #
        htmlEscape v @ CHR ''/'' # ''pawnc'' @ CHR ''-'' # htmlEscape v @ CHR ''-'' # ''linux.tar.gz'',
        Method = Some Untar, Paths = Some (next_map s)\<rparr>, fn, err),
      s\<lparr>maps := (maps s)(next_map s :=
          [(''pawnc'' @ CHR ''-'' # htmlEscape v @ CHR ''-'' # ''linux/bin/pawncc'', ''pawncc''),
           (''pawnc'' @ CHR ''-'' # htmlEscape v @ CHR ''-'' # ''linux/lib/libpawnc.so'', ''libpawnc.so'')]),
        next_map := Suc (next_map s)\<rparr>)"
  using assms
  by (simp add: catalog_intact_def GetCompilerPackageInfo_def select_package_def expand_catalog
     deref_def linux_paths_def Let_def split: sum.splits)

lemma info_windows:
  assumes "catalog_intact s"
  shows "\<exists>fn err. GetCompilerPackageInfo env ''windows'' v s =
     (Return (\<lparr>URL = ''https://github.com/Zeex/pawn/releases/download/'' @ CHR ''v'' #
        htmlEscape v @ CHR ''/'' # ''pawnc'' @ CHR ''-'' # htmlEscape v @ CHR ''-'' # ''windows.zip'',
        Method = Some Unzip, Paths = Some (next_map s)\<rparr>, fn, err),
      s\<lparr>maps := (maps s)(next_map s :=
          [(''pawnc'' @ CHR ''-'' # htmlEscape v @ CHR ''-'' # ''windows/bin/pawncc.exe'', ''pawncc.exe''),
           (''pawnc'' @ CHR ''-'' # htmlEscape v @ CHR ''-'' # ''windows/bin/pawnc.dll'', ''pawnc.dll'')]),
        next_map := Suc (next_map s)\<rparr>)"
  using assms
  by (simp add: catalog_intact_def GetCompilerPackageInfo_def select_package_def expand_catalog
     deref_def windows_paths_def Let_def split: sum.splits)

lemma htmlEscape_plain: "\<not> list_ex html_special v \<Longrightarrow> htmlEscape v = v"
  by (induction v) (auto simp: html_special_def htmlReplacement_def)

lemma substitute_step:
  "substitute n (c # cs) v =
     (if n = 0 then (if starts_with placeholder (c # cs)
                     then v @ substitute (length placeholder - 1) cs v
                     else c # substitute 0 cs v)
      else substitute (n - 1) cs v)"
  by (cases n) simp_all

lemma spec_resolve_catalog:
  "spec_resolve darwin_url v = ''https://github.com/Zeex/pawn/releases/download/'' @ CHR ''v'' #
      v @ CHR ''/'' # ''pawnc'' @ CHR ''-'' # v @ CHR ''-'' # ''darwin.zip''"
  "spec_resolve linux_url v = ''https://github.com/Zeex/pawn/releases/download/'' @ CHR ''v'' #
      v @ CHR ''/'' # ''pawnc'' @ CHR ''-'' # v @ CHR ''-'' # ''linux.tar.gz''"
  "spec_resolve windows_url v = ''https://github.com/Zeex/pawn/releases/download/'' @ CHR ''v'' #
      v @ CHR ''/'' # ''pawnc'' @ CHR ''-'' # v @ CHR ''-'' # ''windows.zip''"
  "map (\<lambda>(k, x). (spec_resolve k v, spec_resolve x v)) darwin_paths =
          [(''pawnc'' @ CHR ''-'' # v @ CHR ''-'' # ''darwin/bin/pawncc'', ''pawncc''),
           (''pawnc'' @ CHR ''-'' # v @ CHR ''-'' # ''darwin/lib/libpawnc.dylib'', ''libpawnc.dylib'')]"
  "map (\<lambda>(k, x). (spec_resolve k v, spec_resolve x v)) linux_paths =
          [(''pawnc'' @ CHR ''-'' # v @ CHR ''-'' # ''linux/bin/pawncc'', ''pawncc''),
           (''pawnc'' @ CHR ''-'' # v @ CHR ''-'' # ''linux/lib/libpawnc.so'', ''libpawnc.so'')]"
  "map (\<lambda>(k, x). (spec_resolve k v, spec_resolve x v)) windows_paths =
          [(''pawnc'' @ CHR ''-'' # v @ CHR ''-'' # ''windows/bin/pawncc.exe'', ''pawncc.exe''),
           (''pawnc'' @ CHR ''-'' # v @ CHR ''-'' # ''windows/bin/pawnc.dll'', ''pawnc.dll'')]"
  by (simp_all add: spec_resolve_def substitute_step placeholder_def darwin_url_def linux_url_def
      windows_url_def darwin_paths_def linux_paths_def windows_paths_def del: substitute.simps(2,3))

text \<open>
  For a version without any of the seven bytes the code does what the spec's resolver
  does, on the locator and on every key and value of the path map.
\<close>

lemma plain_version_literal:
  assumes "catalog_intact s" "\<not> list_ex html_special v"
  shows
    "\<exists>fn err s'. GetCompilerPackageInfo env ''darwin'' v s =
       (Return (\<lparr>URL = spec_resolve darwin_url v, Method = Some Unzip,
                  Paths = Some (next_map s)\<rparr>, fn, err), s') \<and>
       maps s' (next_map s) = map (\<lambda>(k, x). (spec_resolve k v, spec_resolve x v)) darwin_paths"
    "\<exists>fn err s'. GetCompilerPackageInfo env ''linux'' v s =
       (Return (\<lparr>URL = spec_resolve linux_url v, Method = Some Untar,
                  Paths = Some (next_map s)\<rparr>, fn, err), s') \<and>
       maps s' (next_map s) = map (\<lambda>(k, x). (spec_resolve k v, spec_resolve x v)) linux_paths"
    "\<exists>fn err s'. GetCompilerPackageInfo env ''windows'' v s =
       (Return (\<lparr>URL = spec_resolve windows_url v, Method = Some Unzip,
                  Paths = Some (next_map s)\<rparr>, fn, err), s') \<and>
       maps s' (next_map s) = map (\<lambda>(k, x). (spec_resolve k v, spec_resolve x v)) windows_paths"
  using info_darwin [OF assms(1), of env v] info_linux [OF assms(1), of env v]
    info_windows [OF assms(1), of env v]
  unfolding spec_resolve_catalog htmlEscape_plain [OF assms(2)]
  by fastforce+

text \<open>Any platform but the three is refused at once, the state untouched.\<close>

lemma unsupported_os_error:
  assumes "os \<noteq> ''windows''" "os \<noteq> ''linux''" "os \<noteq> ''darwin''"
  shows "GetCompilerPackageInfo env os version s =
           (Return (zero_CompilerPackage, [], Some (Errorf (''unsupported OS '' @ GOOS env))), s)"
  using assms by (simp add: GetCompilerPackageInfo_def select_package_def)

lemma placeholder_chars:
  "placeholder \<noteq> []" "CHR ''v'' \<notin> set placeholder" "CHR ''/'' \<notin> set placeholder"
  "CHR ''-'' \<notin> set placeholder"
  by (simp_all add: placeholder_def)

lemma no_placeholder_in_locator:
  assumes "\<not> contains placeholder v" "\<not> contains placeholder zs"
  shows "\<not> contains placeholder (''https://github.com/Zeex/pawn/releases/download/'' @ CHR ''v'' #
        htmlEscape v @ CHR ''/'' # ''pawnc'' @ CHR ''-'' # htmlEscape v @ CHR ''-'' # zs)"
proof -
  have "\<not> contains placeholder ''https://github.com/Zeex/pawn/releases/download/''"
    and "\<not> contains placeholder ''pawnc''" by code_simp+
  moreover have "\<not> contains placeholder (htmlEscape v)"
    using assms(1) contains_htmlEscape by blast
  ultimately show ?thesis
    unfolding contains_two [OF placeholder_chars(1) placeholder_chars(2) placeholder_chars(3)
        placeholder_chars(4) placeholder_chars(4)]
    using assms(2) by blast
qed

lemma no_placeholder_in_key:
  assumes "\<not> contains placeholder v" "\<not> contains placeholder zs"
  shows "\<not> contains placeholder (''pawnc'' @ CHR ''-'' # htmlEscape v @ CHR ''-'' # zs)"
proof -
  have "\<not> contains placeholder ''pawnc''" by code_simp
  moreover have "\<not> contains placeholder (htmlEscape v)"
    using assms(1) contains_htmlEscape by blast
  ultimately show ?thesis
    unfolding contains_one [OF placeholder_chars(1) placeholder_chars(4) placeholder_chars(4)]
    using assms(2) by blast
qed

lemma catalog_literals:
  "\<not> contains placeholder ''darwin.zip''" "\<not> contains placeholder ''linux.tar.gz''"
  "\<not> contains placeholder ''windows.zip''"
  "\<not> contains placeholder ''darwin/bin/pawncc''"
  "\<not> contains placeholder ''darwin/lib/libpawnc.dylib''"
  "\<not> contains placeholder ''linux/bin/pawncc''"
  "\<not> contains placeholder ''linux/lib/libpawnc.so''"
  "\<not> contains placeholder ''windows/bin/pawncc.exe''"
  "\<not> contains placeholder ''windows/bin/pawnc.dll''"
  "\<not> contains placeholder ''pawncc''" "\<not> contains placeholder ''libpawnc.dylib''"
  "\<not> contains placeholder ''libpawnc.so''" "\<not> contains placeholder ''pawncc.exe''"
  "\<not> contains placeholder ''pawnc.dll''"
  by code_simp+

lemma resolved_clean:
  assumes "catalog_intact s" "\<not> contains placeholder v"
    and "os = ''windows'' \<or> os = ''linux'' \<or> os = ''darwin''"
  shows "\<exists>U m K1 V1 K2 V2 fn err. GetCompilerPackageInfo env os v s =
     (Return (\<lparr>URL = U, Method = m, Paths = Some (next_map s)\<rparr>, fn, err),
      s\<lparr>maps := (maps s)(next_map s := [(K1, V1), (K2, V2)]),
        next_map := Suc (next_map s)\<rparr>) \<and>
     \<not> contains placeholder U \<and> \<not> contains placeholder K1 \<and> \<not> contains placeholder V1 \<and>
     \<not> contains placeholder K2 \<and> \<not> contains placeholder V2"
proof -
  note L = no_placeholder_in_locator [OF assms(2)]
  note K = no_placeholder_in_key [OF assms(2)]
  from assms(3) consider "os = ''windows''" | "os = ''linux''" | "os = ''darwin''" by blast
  then show ?thesis
  proof cases
    case 1
    from info_windows [OF assms(1), of env v] obtain fn err where
      "GetCompilerPackageInfo env ''windows'' v s =
     (Return (\<lparr>URL = ''https://github.com/Zeex/pawn/releases/download/'' @ CHR ''v'' #
        htmlEscape v @ CHR ''/'' # ''pawnc'' @ CHR ''-'' # htmlEscape v @ CHR ''-'' # ''windows.zip'',
        Method = Some Unzip, Paths = Some (next_map s)\<rparr>, fn, err),
      s\<lparr>maps := (maps s)(next_map s :=
          [(''pawnc'' @ CHR ''-'' # htmlEscape v @ CHR ''-'' # ''windows/bin/pawncc.exe'', ''pawncc.exe''),
           (''pawnc'' @ CHR ''-'' # htmlEscape v @ CHR ''-'' # ''windows/bin/pawnc.dll'', ''pawnc.dll'')]),
        next_map := Suc (next_map s)\<rparr>)" by blast
    with 1 L [OF catalog_literals(3)] K [OF catalog_literals(8)] K [OF catalog_literals(9)]
      catalog_literals(13) catalog_literals(14)
    show ?thesis by blast
  next
    case 2
    from info_linux [OF assms(1), of env v] obtain fn err where
      "GetCompilerPackageInfo env ''linux'' v s =
     (Return (\<lparr>URL = ''https://github.com/Zeex/pawn/releases/download/'' @ CHR ''v'' #
        htmlEscape v @ CHR ''/'' # ''pawnc'' @ CHR ''-'' # htmlEscape v @ CHR ''-'' # ''linux.tar.gz'',
        Method = Some Untar, Paths = Some (next_map s)\<rparr>, fn, err),
      s\<lparr>maps := (maps s)(next_map s :=
          [(''pawnc'' @ CHR ''-'' # htmlEscape v @ CHR ''-'' # ''linux/bin/pawncc'', ''pawncc''),
           (''pawnc'' @ CHR ''-'' # htmlEscape v @ CHR ''-'' # ''linux/lib/libpawnc.so'', ''libpawnc.so'')]),
        next_map := Suc (next_map s)\<rparr>)" by blast
    with 2 L [OF catalog_literals(2)] K [OF catalog_literals(6)] K [OF catalog_literals(7)]
      catalog_literals(10) catalog_literals(12)
    show ?thesis by blast
  next
    case 3
    from info_darwin [OF assms(1), of env v] obtain fn err where
      "GetCompilerPackageInfo env ''darwin'' v s =
     (Return (\<lparr>URL = ''https://github.com/Zeex/pawn/releases/download/'' @ CHR ''v'' #
        htmlEscape v @ CHR ''/'' # ''pawnc'' @ CHR ''-'' # htmlEscape v @ CHR ''-'' # ''darwin.zip'',
        Method = Some Unzip, Paths = Some (next_map s)\<rparr>, fn, err),
      s\<lparr>maps := (maps s)(next_map s :=
          [(''pawnc'' @ CHR ''-'' # htmlEscape v @ CHR ''-'' # ''darwin/bin/pawncc'', ''pawncc''),
           (''pawnc'' @ CHR ''-'' # htmlEscape v @ CHR ''-'' # ''darwin/lib/libpawnc.dylib'', ''libpawnc.dylib'')]),
        next_map := Suc (next_map s)\<rparr>)" by blast
    with 3 L [OF catalog_literals(1)] K [OF catalog_literals(4)] K [OF catalog_literals(5)]
      catalog_literals(10) catalog_literals(11)
    show ?thesis by blast
  qed
qed

section \<open>Templates the engine rejects\<close>

lemma exec_unknown_field:
  "list_ex unknown_field ns \<Longrightarrow> \<exists>p. exec_nodes ns version = Inl p"
  by (induction ns version rule: exec_nodes.induct) (auto split: sum.splits)

lemma expand_rejected:
  assumes "engine_rejects t"
  shows "expand t version \<noteq> Return u"
proof (cases "Parse t")
  case (Parsed ns)
  with assms have "list_ex unknown_field ns" by (simp add: engine_rejects_def)
  from exec_unknown_field [OF this, of version] Parsed show ?thesis
    by (auto simp: expand_def)
next
  case ParseError
  then show ?thesis by (simp add: expand_def)
next
  case Unmodelled
  then show ?thesis by (simp add: expand_def)
qed

lemma resolve_paths_Return:
  "resolve_paths version a es s = (Return (), s') \<Longrightarrow>
     list_all (\<lambda>t. \<exists>r. expand t version = Return r) (map fst es @ map snd es)"
proof (induction es arbitrary: s)
  case Nil
  then show ?case by simp
next
  case (Cons kv es)
  obtain k v where kv: "kv = (k, v)" by (cases kv)
  from Cons.prems show ?case unfolding kv
    by (auto split: outcome.splits dest!: Cons.IH)
qed

lemma info_Return:
  assumes "select_package s os = Some pkg"
    and "fst (GetCompilerPackageInfo env os version s) = Return r"
  shows "list_all (\<lambda>t. \<exists>r. expand t version = Return r) (templates_of s pkg)"
  using assms unfolding GetCompilerPackageInfo_def templates_of_def Let_def
  by (auto split: outcome.splits prod.splits sum.splits dest!: resolve_paths_Return)

lemma returned_errors:
  assumes "GetCompilerPackageInfo env os version s = (Return (pkg', fn, Some e), s')"
  shows "(select_package s os = None \<and> e = Errorf (''unsupported OS '' @ GOOS env)) \<or>
         url_Parse_Path env (URL pkg') = Inl e"
  using assms unfolding GetCompilerPackageInfo_def Let_def
  by (auto split: option.splits outcome.splits prod.splits sum.splits)

lemma unclosed_locator:
  assumes "select_package s os = Some pkg"
    and "split_at ''{{'' (URL pkg) = Some (lit, tail)" "split_at ''}}'' tail = None"
  shows "GetCompilerPackageInfo env os version s = (Panic ParseFailure, s)"
proof -
  have "Parse (URL pkg) = ParseError" using assms(2,3) by (simp add: Parse.simps)
  then have "expand (URL pkg) version = Panic ParseFailure" by (simp add: expand_def)
  with assms(1) show ?thesis by (simp add: GetCompilerPackageInfo_def)
qed

lemma unbalanced_braces_are_text:
  "expand ''pawnc-{.Version}}-linux'' version = Return ''pawnc-{.Version}}-linux''"
proof -
  have "Parse ''pawnc-{.Version}}-linux'' = Parsed [TextNode ''pawnc-{.Version}}-linux'']"
    by code_simp
  then show ?thesis by (simp add: expand_def)
qed

section \<open>A second run, in the store of the spec\<close>

lemma spec_extract_frame:
  "spec_extract mem dir ps w = (e, w') \<Longrightarrow>
     cached w' = cached w \<and> remote w' = remote w \<and> cacheRoot w' = cacheRoot w"
  by (induction mem dir ps w rule: spec_extract.induct) (auto split: option.splits)

lemma spec_extract_ok:
  "(fst (spec_extract mem dir ps w) = None) = members_present mem ps"
  by (induction mem dir ps w rule: spec_extract.induct)
     (auto simp: members_present_def split: option.splits)

lemma intact_frame [simp]:
  "catalog_intact (s\<lparr>world := w\<rparr>) = catalog_intact s"
  "catalog_intact (s\<lparr>trace := t\<rparr>) = catalog_intact s"
  "catalog_allocated (s\<lparr>world := w\<rparr>) = catalog_allocated s"
  "catalog_allocated (s\<lparr>trace := t\<rparr>) = catalog_allocated s"
  by (auto simp: catalog_intact_def catalog_allocated_def split: option.splits)

lemma intact_alloc:
  assumes "catalog_intact s" "catalog_allocated s"
  shows "catalog_intact (s\<lparr>maps := (maps s)(next_map s := P), next_map := Suc (next_map s)\<rparr>)"
    and "catalog_allocated (s\<lparr>maps := (maps s)(next_map s := P), next_map := Suc (next_map s)\<rparr>)"
  using assms by (auto simp: catalog_intact_def catalog_allocated_def)

lemma resolves_darwin:
  "resolves_to T ''darwin'' v
     (''https://github.com/Zeex/pawn/releases/download/'' @ CHR ''v'' #
        htmlEscape v @ CHR ''/'' # ''pawnc'' @ CHR ''-'' # htmlEscape v @ CHR ''-'' # ''darwin.zip'')
     Unzip
     [(''pawnc'' @ CHR ''-'' # htmlEscape v @ CHR ''-'' # ''darwin/bin/pawncc'', ''pawncc''),
      (''pawnc'' @ CHR ''-'' # htmlEscape v @ CHR ''-'' # ''darwin/lib/libpawnc.dylib'', ''libpawnc.dylib'')]"
  unfolding resolves_to_def
  by (simp add: catalog_intact_def GetCompilerPackageInfo_def select_package_def expand_catalog
     deref_def darwin_paths_def Let_def split: sum.splits)

lemma resolves_linux:
  "resolves_to T ''linux'' v
     (''https://github.com/Zeex/pawn/releases/download/'' @ CHR ''v'' #
        htmlEscape v @ CHR ''/'' # ''pawnc'' @ CHR ''-'' # htmlEscape v @ CHR ''-'' # ''linux.tar.gz'')
     Untar
     [(''pawnc'' @ CHR ''-'' # htmlEscape v @ CHR ''-'' # ''linux/bin/pawncc'', ''pawncc''),
      (''pawnc'' @ CHR ''-'' # htmlEscape v @ CHR ''-'' # ''linux/lib/libpawnc.so'', ''libpawnc.so'')]"
  unfolding resolves_to_def
  by (simp add: catalog_intact_def GetCompilerPackageInfo_def select_package_def expand_catalog
     deref_def linux_paths_def Let_def split: sum.splits)

lemma resolves_windows:
  "resolves_to T ''windows'' v
     (''https://github.com/Zeex/pawn/releases/download/'' @ CHR ''v'' #
        htmlEscape v @ CHR ''/'' # ''pawnc'' @ CHR ''-'' # htmlEscape v @ CHR ''-'' # ''windows.zip'')
     Unzip
     [(''pawnc'' @ CHR ''-'' # htmlEscape v @ CHR ''-'' # ''windows/bin/pawncc.exe'', ''pawncc.exe''),
      (''pawnc'' @ CHR ''-'' # htmlEscape v @ CHR ''-'' # ''windows/bin/pawnc.dll'', ''pawnc.dll'')]"
  unfolding resolves_to_def
  by (simp add: catalog_intact_def GetCompilerPackageInfo_def select_package_def expand_catalog
     deref_def windows_paths_def Let_def split: sum.splits)

lemma resolves_supported:
  assumes "os = ''windows'' \<or> os = ''linux'' \<or> os = ''darwin''"
  shows "\<exists>U m P. resolves_to T os version U m P"
  using assms resolves_windows resolves_linux resolves_darwin by blast

lemma spec_env_fields [simp]:
  "GOOS (spec_env goos up base) = goos"
  "url_Parse_Path (spec_env goos up base) = up"
  "filepath_Base (spec_env goos up base) = base"
  "GetCacheDir (spec_env goos up base) = (\<lambda>w. ((cacheRoot w, None), w))"
  "FromCache (spec_env goos up base) = spec_FromCache"
  "FromNet (spec_env goos up base) = spec_FromNet"
  "exists (spec_env goos up base) = (\<lambda>path w. path \<in> set (dirs w))"
  "MkdirAll (spec_env goos up base) = (\<lambda>path w. (None, w\<lparr>dirs := path # dirs w\<rparr>))"
  "Extract (spec_env goos up base) = spec_Extract"
  by (simp_all add: spec_env_def)

lemma spec_extract_None:
  "spec_extract mem dir ps w = (None, w') \<Longrightarrow> members_present mem ps"
  using spec_extract_ok [of mem dir ps w] by simp

lemma spec_extract_result:
  "spec_extract mem dir ps w = (e, w') \<Longrightarrow>
     cached w' = cached w \<and> remote w' = remote w \<and> cacheRoot w' = cacheRoot w \<and>
     (e = None \<longrightarrow> members_present mem ps)"
  using spec_extract_frame [of mem dir ps w e w'] spec_extract_ok [of mem dir ps w] by simp

lemma spec_extract_present:
  "members_present mem ps \<Longrightarrow> \<exists>w'. spec_extract mem dir ps w = (None, w')"
  using spec_extract_ok [of mem dir ps w] by (cases "spec_extract mem dir ps w") simp

lemma spec_info:
  assumes "resolves_to TYPE(store state) goos version U m P" "catalog_intact s"
    and "up U = Inr p"
  shows "GetCompilerPackageInfo (spec_env goos up base) goos version s =
           (Return (\<lparr>URL = U, Method = Some m, Paths = Some (next_map s)\<rparr>, base p, None),
            s\<lparr>maps := (maps s)(next_map s := P), next_map := Suc (next_map s)\<rparr>)"
  using assms unfolding resolves_to_def by simp

lemma spec_cache_stage:
  assumes R: "resolves_to TYPE(store state) goos version U m P" and url: "up U = Inr p"
    and intact: "catalog_intact s" "catalog_allocated s"
    and run: "CompilerFromCache (spec_env goos up base) c version dir s = (r, s')"
  shows "catalog_intact s' \<and> catalog_allocated s' \<and>
         cacheRoot (world s') = cacheRoot (world s) \<and>
         (r = Return (False, None) \<or>
          r = Return (True, None) \<and>
          (\<exists>mem. cached (world s') (c @ ''/'' @ base p) = Some (m, mem) \<and>
                 members_present mem P))"
  using run intact_alloc [OF intact, of P] unfolding CompilerFromCache_def
  by (auto simp: spec_info [where up = up and p = p and base = base, OF R intact(1) url] call_FromCache_def
        spec_FromCache_def spec_Extract_def emit_def deref_def
      split: option.splits prod.splits if_splits
      dest!: spec_extract_result)

lemma spec_cache_hit:
  assumes R: "resolves_to TYPE(store state) goos version U m P" and url: "up U = Inr p"
    and intact: "catalog_intact s"
    and arch: "cached (world s) (c @ ''/'' @ base p) = Some (m, mem)" "members_present mem P"
  shows "\<exists>s'. CompilerFromCache (spec_env goos up base) c version dir s
                = (Return (True, None), s') \<and>
              trace s' = trace s @ [EvFromCache c (base p) dir (Some m) P True None]"
  using arch spec_extract_present [OF arch(2), of dir "world s"]
  unfolding CompilerFromCache_def
  by (auto simp: spec_info [where up = up and p = p and base = base, OF R intact url] call_FromCache_def
        spec_FromCache_def spec_Extract_def emit_def deref_def)

lemma spec_net_stage:
  assumes R: "resolves_to TYPE(store state) goos version U m P" and url: "up U = Inr p"
    and intact: "catalog_intact s" "catalog_allocated s"
    and run: "CompilerFromNet (spec_env goos up base) c version dir s = (Return None, s')"
  shows "catalog_intact s' \<and> catalog_allocated s' \<and>
         cacheRoot (world s') = cacheRoot (world s) \<and>
         (\<exists>mem. cached (world s') (c @ ''/'' @ base p) = Some (m, mem) \<and>
                members_present mem P)"
  using run intact_alloc [OF intact, of P] unfolding CompilerFromNet_def
  by (auto simp: spec_info [where up = up and p = p and base = base, OF R intact(1) url] call_exists_def
        call_MkdirAll_def call_FromNet_def call_Extract_def spec_FromNet_def
        spec_Extract_def emit_def deref_def Let_def
      split: option.splits prod.splits if_splits
      dest!: spec_extract_result)

lemma spec_GetCacheDir:
  "\<exists>s1. call_GetCacheDir (spec_env goos up base) (emit (EvPrint ''Downloading compiler package'') s)
           = ((cacheRoot (world s), None), s1) \<and>
         world s1 = world s \<and>
         trace s1 = trace s @ [EvPrint ''Downloading compiler package'',
                               EvGetCacheDir (cacheRoot (world s)) None] \<and>
         catalog_intact s1 = catalog_intact s \<and> catalog_allocated s1 = catalog_allocated s"
  by (simp add: call_GetCacheDir_def emit_def)

lemma spec_success_leaves_archive:
  assumes intact: "catalog_intact s" "catalog_allocated s"
    and run: "GetCompilerPackage (spec_env goos up base) version dir s = (Return None, s')"
  shows "\<exists>U m P p mem. resolves_to TYPE(store state) goos version U m P \<and> up U = Inr p \<and>
           catalog_intact s' \<and> catalog_allocated s' \<and>
           cached (world s') (cacheRoot (world s') @ ''/'' @ base p) = Some (m, mem) \<and>
           members_present mem P"
proof -
  let ?E = "spec_env goos up base"
  let ?c = "cacheRoot (world s)"
  from spec_GetCacheDir [of goos up base s] obtain s1 where
    g: "call_GetCacheDir ?E (emit (EvPrint ''Downloading compiler package'') s) = ((?c, None), s1)"
    and w1: "world s1 = world s"
    and i1: "catalog_intact s1" "catalog_allocated s1"
    using intact by blast
  have sup: "goos = ''windows'' \<or> goos = ''linux'' \<or> goos = ''darwin''"
  proof (rule ccontr)
    assume "\<not> ?thesis"
    then have "CompilerFromCache ?E ?c version dir s1 =
        (Return (False, Some (Errorf (''unsupported OS '' @ goos))), s1)"
      by (simp add: CompilerFromCache_def unsupported_os_error)
    with g run show False by (simp add: GetCompilerPackage_def)
  qed
  from resolves_supported [OF sup] obtain U m P
    where R: "resolves_to TYPE(store state) goos version U m P" by blast
  show ?thesis
  proof (cases "up U")
    case (Inl e)
    from R i1(1) Inl have "\<exists>pkg s2. GetCompilerPackageInfo ?E goos version s1 =
        (Return (pkg, [], Some e), s2)"
      unfolding resolves_to_def by simp
    then have "\<exists>s2. CompilerFromCache ?E ?c version dir s1 = (Return (False, Some e), s2)"
      by (auto simp: CompilerFromCache_def)
    with g run show ?thesis by (auto simp: GetCompilerPackage_def)
  next
    case (Inr p)
    obtain rc s2 where c: "CompilerFromCache ?E ?c version dir s1 = (rc, s2)"
      by (cases "CompilerFromCache ?E ?c version dir s1")
    note C = spec_cache_stage [where up = up and p = p and base = base, OF R Inr i1 c]
    show ?thesis
    proof (cases "rc = Return (True, None)")
      case True
      with g c run have "s' = s2" by (simp add: GetCompilerPackage_def)
      with C True w1 obtain mem where F: "catalog_intact s'" "catalog_allocated s'"
        "cached (world s') (cacheRoot (world s') @ ''/'' @ base p) = Some (m, mem)"
        "members_present mem P" by auto
      show ?thesis
      proof (intro exI conjI)
        show "resolves_to TYPE(store state) goos version U m P" by (rule R)
        show "up U = Inr p" by (rule Inr)
      qed (rule F)+
    next
      case False
      with C have rc: "rc = Return (False, None)" by blast
      obtain rn s3 where n: "CompilerFromNet ?E ?c version dir s2 = (rn, s3)"
        by (cases "CompilerFromNet ?E ?c version dir s2")
      from g c rc n run have "rn = Return None \<and> s' = s3"
        by (auto simp: GetCompilerPackage_def split: outcome.splits option.splits)
      with n have n': "CompilerFromNet ?E ?c version dir s2 = (Return None, s')" by simp
      from C have i2: "catalog_intact s2" "catalog_allocated s2"
        and c2: "cacheRoot (world s2) = ?c" using w1 by simp_all
      from spec_net_stage [where up = up and p = p and base = base, OF R Inr i2 n'] c2
      obtain mem where F: "catalog_intact s'" "catalog_allocated s'"
        "cached (world s') (cacheRoot (world s') @ ''/'' @ base p) = Some (m, mem)"
        "members_present mem P" by auto
      show ?thesis
      proof (intro exI conjI)
        show "resolves_to TYPE(store state) goos version U m P" by (rule R)
        show "up U = Inr p" by (rule Inr)
      qed (rule F)+
    qed
  qed
qed

lemma spec_hit_run:
  assumes R: "resolves_to TYPE(store state) goos version U m P" and url: "up U = Inr p"
    and intact: "catalog_intact s"
    and arch: "cached (world s) (cacheRoot (world s) @ ''/'' @ base p) = Some (m, mem)"
      "members_present mem P"
  shows "\<exists>s'. GetCompilerPackage (spec_env goos up base) version dir s = (Return None, s') \<and>
           new_events s s' =
             [EvPrint ''Downloading compiler package'', EvGetCacheDir (cacheRoot (world s)) None,
              EvFromCache (cacheRoot (world s)) (base p) dir (Some m) P True None]"
proof -
  let ?E = "spec_env goos up base"
  let ?c = "cacheRoot (world s)"
  from spec_GetCacheDir [of goos up base s] obtain s1 where
    g: "call_GetCacheDir ?E (emit (EvPrint ''Downloading compiler package'') s) = ((?c, None), s1)"
    and w1: "world s1 = world s"
    and t1: "trace s1 = trace s @ [EvPrint ''Downloading compiler package'', EvGetCacheDir ?c None]"
    and i1: "catalog_intact s1"
    using intact by blast
  from arch w1 have a1: "cached (world s1) (?c @ ''/'' @ base p) = Some (m, mem)" by simp
  from spec_cache_hit [where up = up and p = p and base = base and dir = dir, OF R url i1 a1 arch(2)]
  obtain s2 where
    c: "CompilerFromCache ?E ?c version dir s1 = (Return (True, None), s2)"
    and t2: "trace s2 = trace s1 @ [EvFromCache ?c (base p) dir (Some m) P True None]" by blast
  from g c have "GetCompilerPackage ?E version dir s = (Return None, s2)"
    by (simp add: GetCompilerPackage_def)
  moreover from t1 t2 have "new_events s s2 =
      [EvPrint ''Downloading compiler package'', EvGetCacheDir ?c None,
       EvFromCache ?c (base p) dir (Some m) P True None]"
    by (simp add: new_events_def)
  ultimately show ?thesis by blast
qed

lemma rerun_is_cache_hit:
  assumes "catalog_intact s" "catalog_allocated s"
    and "GetCompilerPackage (spec_env goos up base) version dir s = (Return None, s')"
  shows "\<exists>s'' c f m P. GetCompilerPackage (spec_env goos up base) version dir s'
                          = (Return None, s'') \<and>
           new_events s' s'' =
             [EvPrint ''Downloading compiler package'', EvGetCacheDir c None,
              EvFromCache c f dir (Some m) P True None]"
proof -
  from spec_success_leaves_archive [OF assms] obtain U m P p mem where
    F: "resolves_to TYPE(store state) goos version U m P" "up U = Inr p" "catalog_intact s'"
    "cached (world s') (cacheRoot (world s') @ ''/'' @ base p) = Some (m, mem)"
    "members_present mem P" by blast
  from spec_hit_run [where up = up and p = p and base = base and dir = dir, OF F]
  show ?thesis by blast
qed

section \<open>The cache stage decides\<close>

text \<open>
  When \<open>GetCacheDir\<close> has returned and the cache stage \<open>CompilerFromCache\<close> reports a hit
  and no error, \<open>GetCompilerPackage\<close> returns nil in the state the cache stage left:
  nothing runs after it, and none of the calls of the network stage was made.
\<close>

lemma cache_hit_skips_network:
  assumes "call_GetCacheDir env (emit (EvPrint ''Downloading compiler package'') s)
             = ((cacheDir, None), s1)"
    and "CompilerFromCache env cacheDir version dir s1 = (Return (True, None), s2)"
  shows "GetCompilerPackage env version dir s = (Return None, s2) \<and>
         \<not> list_ex net_stage_event (new_events s s2)"
proof -
  have run: "GetCompilerPackage env version dir s = (Return None, s2)"
    using assms by (simp add: GetCompilerPackage_def)
  from assms(1) have t1:
    "\<exists>d e. trace s1 = trace s @ [EvPrint ''Downloading compiler package'', EvGetCacheDir d e]"
    by (auto simp: call_GetCacheDir_def emit_def split: prod.splits)
  from CompilerFromCache_events [OF assms(2)] obtain evs
    where "trace s2 = trace s1 @ evs" "list_all is_FromCache evs" by blast
  with t1 have "\<not> list_ex net_stage_event (new_events s s2)"
    by (auto simp: new_events_def list_ex_iff list_all_iff dest: FromCache_not_net_stage)
  with run show ?thesis by simp
qed

text \<open>
  C1. First, for every environment: a hit without error from the cache stage ends
  \<open>GetCompilerPackage\<close> with nil, in the state the cache stage left and with no call of
  the network stage (\<open>exists\<close>, \<open>MkdirAll\<close>, \<open>FromNet\<close>, the extraction). Hence, with the
  cache store, the fetcher and the extraction as the spec describes them: after a run
  that returned nil, from any state holding the initial catalogue, the same request run
  again in the state the first run left returns nil, and its calls are the print,
  \<open>GetCacheDir\<close> and one \<open>FromCache\<close> that hits; no call of the network stage is made.
\<close>

theorem cache_hit_ends_run_and_rerun_hits:
  "(call_GetCacheDir env (emit (EvPrint ''Downloading compiler package'') s)
      = ((cacheDir, None), s1) \<and>
    CompilerFromCache env cacheDir version dir s1 = (Return (True, None), s2) \<longrightarrow>
      GetCompilerPackage env version dir s = (Return None, s2) \<and>
      \<not> list_ex net_stage_event (new_events s s2)) \<and>
   (catalog_intact t \<and> catalog_allocated t \<and>
    GetCompilerPackage (spec_env goos up base) version dir t = (Return None, t') \<longrightarrow>
      (\<exists>t'' c f m P.
         GetCompilerPackage (spec_env goos up base) version dir t' = (Return None, t'') \<and>
         new_events t' t'' =
           [EvPrint ''Downloading compiler package'', EvGetCacheDir c None,
            EvFromCache c f dir (Some m) P True None] \<and>
         \<not> list_ex net_stage_event (new_events t' t'')))"
proof (intro conjI impI)
  assume "call_GetCacheDir env (emit (EvPrint ''Downloading compiler package'') s)
      = ((cacheDir, None), s1) \<and>
    CompilerFromCache env cacheDir version dir s1 = (Return (True, None), s2)"
  then show "GetCompilerPackage env version dir s = (Return None, s2)"
    and "\<not> list_ex net_stage_event (new_events s s2)"
    using cache_hit_skips_network by blast+
next
  assume "catalog_intact t \<and> catalog_allocated t \<and>
    GetCompilerPackage (spec_env goos up base) version dir t = (Return None, t')"
  then obtain t'' c f m P where
    r: "GetCompilerPackage (spec_env goos up base) version dir t' = (Return None, t'')"
    and e: "new_events t' t'' =
           [EvPrint ''Downloading compiler package'', EvGetCacheDir c None,
            EvFromCache c f dir (Some m) P True None]"
    using rerun_is_cache_hit by blast
  from e have "\<not> list_ex net_stage_event (new_events t' t'')" by simp
  with r e show "\<exists>t'' c f m P.
         GetCompilerPackage (spec_env goos up base) version dir t' = (Return None, t'') \<and>
         new_events t' t'' =
           [EvPrint ''Downloading compiler package'', EvGetCacheDir c None,
            EvFromCache c f dir (Some m) P True None] \<and>
         \<not> list_ex net_stage_event (new_events t' t'')" by blast
qed

text \<open>
  A run that finds the archive in the cache; and, in the store of the spec with an empty
  cache, a first run that fetches and a second run that does not.
\<close>

theorem cache_hit_ends_run_and_rerun_hits_witness:
  "fst (GetCompilerPackage test_env ''3.10.4'' ''/dst''
          (init_state [''/cache/pawnc-3.10.4-linux.tar.gz''])) = Return None \<and>
   \<not> list_ex net_stage_event
       (new_events (init_state [''/cache/pawnc-3.10.4-linux.tar.gz''])
          (snd (GetCompilerPackage test_env ''3.10.4'' ''/dst''
             (init_state [''/cache/pawnc-3.10.4-linux.tar.gz''])))) \<and>
   fst (GetCompilerPackage (spec_env ''linux'' test_url_path test_base) ''3.10.4'' ''/dst''
          (init_state fresh_store)) = Return None \<and>
   filter is_FromNet
     (new_events (init_state fresh_store)
        (snd (GetCompilerPackage (spec_env ''linux'' test_url_path test_base) ''3.10.4'' ''/dst''
           (init_state fresh_store))))
     = [EvFromNet
          ''https://github.com/Zeex/pawn/releases/download/v3.10.4/pawnc-3.10.4-linux.tar.gz''
          ''/cache'' ''pawnc-3.10.4-linux.tar.gz'' ''/cache/pawnc-3.10.4-linux.tar.gz'' None] \<and>
   fst (GetCompilerPackage (spec_env ''linux'' test_url_path test_base) ''3.10.4'' ''/dst''
          (snd (GetCompilerPackage (spec_env ''linux'' test_url_path test_base) ''3.10.4'' ''/dst''
             (init_state fresh_store)))) = Return None \<and>
   new_events
     (snd (GetCompilerPackage (spec_env ''linux'' test_url_path test_base) ''3.10.4'' ''/dst''
        (init_state fresh_store)))
     (snd (GetCompilerPackage (spec_env ''linux'' test_url_path test_base) ''3.10.4'' ''/dst''
        (snd (GetCompilerPackage (spec_env ''linux'' test_url_path test_base) ''3.10.4'' ''/dst''
           (init_state fresh_store)))))
     = [EvPrint ''Downloading compiler package'', EvGetCacheDir ''/cache'' None,
        EvFromCache ''/cache'' ''pawnc-3.10.4-linux.tar.gz'' ''/dst'' (Some Untar)
          [(''pawnc-3.10.4-linux/bin/pawncc'', ''pawncc''),
           (''pawnc-3.10.4-linux/lib/libpawnc.so'', ''libpawnc.so'')] True None]"
proof -
  let ?s = "init_state [''/cache/pawnc-3.10.4-linux.tar.gz'']"
  let ?c = "call_GetCacheDir test_env (emit (EvPrint ''Downloading compiler package'') ?s)"
  let ?f = "CompilerFromCache test_env ''/cache'' ''3.10.4'' ''/dst'' (snd ?c)"
  let ?E = "spec_env ''linux'' test_url_path test_base"
  let ?t = "init_state fresh_store"
  let ?r1 = "GetCompilerPackage ?E ''3.10.4'' ''/dst'' ?t"
  let ?r2 = "GetCompilerPackage ?E ''3.10.4'' ''/dst'' (snd ?r1)"
  note T = cache_hit_ends_run_and_rerun_hits
  have a: "fst ?c = (''/cache'', None)" by code_simp
  have b: "fst ?f = Return (True, None)" by code_simp
  have c: "?c = ((''/cache'', None), snd ?c)" using a by (metis prod.collapse)
  have d: "?f = (Return (True, None), snd ?f)" using b by (metis prod.collapse)
  from T [where env = test_env and s = ?s and cacheDir = "''/cache''" and ?s1.0 = "snd ?c"
      and version = "''3.10.4''" and dir = "''/dst''" and ?s2.0 = "snd ?f", THEN conjunct1]
    c d
  have 1: "GetCompilerPackage test_env ''3.10.4'' ''/dst'' ?s = (Return None, snd ?f)"
    and 2: "\<not> list_ex net_stage_event (new_events ?s (snd ?f))" by blast+
  have i: "catalog_intact ?t" "catalog_allocated ?t" by code_simp+
  have r1: "fst ?r1 = Return None" by code_simp
  then have r1': "?r1 = (Return None, snd ?r1)" by (metis prod.collapse)
  have n1: "filter is_FromNet (new_events ?t (snd ?r1))
     = [EvFromNet
          ''https://github.com/Zeex/pawn/releases/download/v3.10.4/pawnc-3.10.4-linux.tar.gz''
          ''/cache'' ''pawnc-3.10.4-linux.tar.gz'' ''/cache/pawnc-3.10.4-linux.tar.gz'' None]"
    by code_simp
  from T [where t = ?t and goos = "''linux''" and up = test_url_path and base = test_base
      and version = "''3.10.4''" and dir = "''/dst''" and t' = "snd ?r1", THEN conjunct2]
    i r1'
  have "\<exists>t''. ?r2 = (Return None, t'')" by blast
  then have 3: "fst ?r2 = Return None" by auto
  have 4: "new_events (snd ?r1) (snd ?r2)
     = [EvPrint ''Downloading compiler package'', EvGetCacheDir ''/cache'' None,
        EvFromCache ''/cache'' ''pawnc-3.10.4-linux.tar.gz'' ''/dst'' (Some Untar)
          [(''pawnc-3.10.4-linux/bin/pawncc'', ''pawncc''),
           (''pawnc-3.10.4-linux/lib/libpawnc.so'', ''libpawnc.so'')] True None]"
    by code_simp
  from 1 2 r1 n1 3 4 show ?thesis by simp
qed

text \<open>
  C2. When the descriptor is resolved and \<open>FromCache\<close> answers \<open>hit = false\<close>, with
  whatever error \<open>err\<close> or none, \<open>CompilerFromCache\<close> returns \<open>(false, nil)\<close>: the error
  is dropped. \<open>GetCompilerPackage\<close> then runs \<open>CompilerFromNet\<close> in the state the lookup
  left, and its result is the result of that call (an error wrapped as coming from the
  net).
\<close>

theorem cache_miss_falls_through:
  assumes "call_GetCacheDir env (emit (EvPrint ''Downloading compiler package'') s)
             = ((cacheDir, None), s1)"
    and "GetCompilerPackageInfo env (GOOS env) version s1 = (Return (pkg, filename, None), s2)"
    and "FromCache env cacheDir filename dir (Method pkg) (deref s2 (Paths pkg)) (world s2)
             = ((False, err), w3)"
    and "s3 = emit (EvFromCache cacheDir filename dir (Method pkg) (deref s2 (Paths pkg)) False err)
                (s2\<lparr>world := w3\<rparr>)"
  shows "CompilerFromCache env cacheDir version dir s1 = (Return (False, None), s3) \<and>
         GetCompilerPackage env version dir s =
           (case CompilerFromNet env cacheDir version dir s3 of
              (Return (Some e), s4) \<Rightarrow>
                (Return (Some (Wrap e (''failed to get package '' @ version @ '' from net''))), s4)
            | r \<Rightarrow> r)"
proof -
  have c: "CompilerFromCache env cacheDir version dir s1 = (Return (False, None), s3)"
    using assms(2-4) by (simp add: CompilerFromCache_def call_FromCache_def)
  show ?thesis
    using assms(1) c
    by (simp add: GetCompilerPackage_def split: prod.splits outcome.splits option.splits)
qed

theorem cache_miss_falls_through_witness:
  "fst (CompilerFromCache corrupt_env ''/cache'' ''3.10.4'' ''/dst''
          (snd (call_GetCacheDir corrupt_env (emit (EvPrint ''Downloading compiler package'')
             (init_state [''/cache/pawnc-3.10.4-linux.tar.gz''])))))
     = Return (False, None) \<and>
   fst (GetCompilerPackage corrupt_env ''3.10.4'' ''/dst''
          (init_state [''/cache/pawnc-3.10.4-linux.tar.gz''])) = Return None \<and>
   filter is_FromNet (trace (snd (GetCompilerPackage corrupt_env ''3.10.4'' ''/dst''
          (init_state [''/cache/pawnc-3.10.4-linux.tar.gz'']))))
     = [EvFromNet
          ''https://github.com/Zeex/pawn/releases/download/v3.10.4/pawnc-3.10.4-linux.tar.gz''
          ''/cache'' ''pawnc-3.10.4-linux.tar.gz'' ''/cache/pawnc-3.10.4-linux.tar.gz'' None]"
proof -
  let ?s = "init_state [''/cache/pawnc-3.10.4-linux.tar.gz'']"
  let ?c = "call_GetCacheDir corrupt_env (emit (EvPrint ''Downloading compiler package'') ?s)"
  let ?i = "GetCompilerPackageInfo corrupt_env (GOOS corrupt_env) ''3.10.4'' (snd ?c)"
  let ?pkg = "\<lparr>URL =
       ''https://github.com/Zeex/pawn/releases/download/v3.10.4/pawnc-3.10.4-linux.tar.gz'',
       Method = Some Untar, Paths = Some 3\<rparr>"
  let ?s3 = "emit (EvFromCache ''/cache'' ''pawnc-3.10.4-linux.tar.gz'' ''/dst'' (Method ?pkg)
               (deref (snd ?i) (Paths ?pkg)) False (Some (Errorf ''not an archive'')))
               ((snd ?i)\<lparr>world := world (snd ?i)\<rparr>)"
  have a: "fst ?c = (''/cache'', None)" by code_simp
  have c: "?c = ((''/cache'', None), snd ?c)" using a by (metis prod.collapse)
  have "fst ?i = Return (?pkg, ''pawnc-3.10.4-linux.tar.gz'', None)" by code_simp
  then have i: "?i = (Return (?pkg, ''pawnc-3.10.4-linux.tar.gz'', None), snd ?i)"
    by (metis prod.collapse)
  have m: "FromCache corrupt_env ''/cache'' ''pawnc-3.10.4-linux.tar.gz'' ''/dst'' (Method ?pkg)
             (deref (snd ?i) (Paths ?pkg)) (world (snd ?i))
           = ((False, Some (Errorf ''not an archive'')), world (snd ?i))"
    by (simp add: corrupt_env_def)
  have n: "fst (GetCompilerPackage corrupt_env ''3.10.4'' ''/dst'' ?s) = Return None" by code_simp
  have t: "filter is_FromNet (trace (snd (GetCompilerPackage corrupt_env ''3.10.4'' ''/dst'' ?s)))
     = [EvFromNet
          ''https://github.com/Zeex/pawn/releases/download/v3.10.4/pawnc-3.10.4-linux.tar.gz''
          ''/cache'' ''pawnc-3.10.4-linux.tar.gz'' ''/cache/pawnc-3.10.4-linux.tar.gz'' None]"
    by code_simp
  from cache_miss_falls_through [OF c i m refl] n t show ?thesis by simp
qed

text \<open>
  C10. When the cache stage returns \<open>hit = true\<close> together with an error,
  \<open>GetCompilerPackage\<close> returns that error, wrapped as a failure of the cache, and not
  success: the error is tested before the hit.
\<close>

theorem cache_error_beats_hit:
  assumes "call_GetCacheDir env (emit (EvPrint ''Downloading compiler package'') s)
             = ((cacheDir, None), s1)"
    and "CompilerFromCache env cacheDir version dir s1 = (Return (True, Some e), s2)"
  shows "GetCompilerPackage env version dir s =
           (Return (Some (Wrap e (''failed to get package '' @ version @ '' from cache''))), s2)"
  using assms by (simp add: GetCompilerPackage_def)

theorem cache_error_beats_hit_witness:
  "fst (CompilerFromCache confused_env ''/cache'' ''3.10.4'' ''/dst''
          (snd (call_GetCacheDir confused_env (emit (EvPrint ''Downloading compiler package'')
             (init_state [''/cache/pawnc-3.10.4-linux.tar.gz''])))))
     = Return (True, Some (Errorf ''short read'')) \<and>
   fst (GetCompilerPackage confused_env ''3.10.4'' ''/dst''
          (init_state [''/cache/pawnc-3.10.4-linux.tar.gz'']))
     = Return (Some (Wrap (Errorf ''short read'') ''failed to get package 3.10.4 from cache''))"
proof -
  let ?s = "init_state [''/cache/pawnc-3.10.4-linux.tar.gz'']"
  let ?c = "call_GetCacheDir confused_env (emit (EvPrint ''Downloading compiler package'') ?s)"
  let ?f = "CompilerFromCache confused_env ''/cache'' ''3.10.4'' ''/dst'' (snd ?c)"
  have a: "fst ?c = (''/cache'', None)" by code_simp
  have b: "fst ?f = Return (True, Some (Errorf ''short read''))" by code_simp
  have c: "?c = ((''/cache'', None), snd ?c)" using a by (metis prod.collapse)
  have d: "?f = (Return (True, Some (Errorf ''short read'')), snd ?f)"
    using b by (metis prod.collapse)
  from cache_error_beats_hit [OF c d] b show ?thesis by simp
qed

section \<open>The network stage\<close>

text \<open>
  C7. In every run of \<open>CompilerFromNet\<close>: no fetch is called before the cache directory
  is known to exist (\<open>exists\<close> answered true or \<open>MkdirAll\<close> succeeded); the fetch is
  called at most once; when it fails with \<open>e\<close> the result is the error
  \<open>Wrap e ''failed to download package''\<close> and no extraction is called; an extraction is
  called only after a fetch that succeeded, on the path that fetch returned, into \<open>dir\<close>,
  by the method of the resolved descriptor and with its resolved path map.
\<close>

theorem fetch_discipline:
  assumes run: "CompilerFromNet env cacheDir version dir s = (r, s')"
  shows "preceded (ensures cacheDir) is_FromNet (new_events s s') \<and>
         length (filter is_FromNet (new_events s s')) \<le> 1 \<and>
         (\<forall>u c f p e. EvFromNet u c f p (Some e) \<in> set (new_events s s') \<longrightarrow>
            r = Return (Some (Wrap e ''failed to download package'')) \<and>
            \<not> list_ex is_Extract (new_events s s')) \<and>
         (\<forall>m p d ps x. EvExtract m p d ps x \<in> set (new_events s s') \<longrightarrow>
            preceded (fetched p) is_Extract (new_events s s') \<and> d = dir \<and>
            (\<exists>pkg fn s1. GetCompilerPackageInfo env (GOOS env) version s
                            = (Return (pkg, fn, None), s1) \<and>
               Method pkg = Some m \<and> ps = deref s1 (Paths pkg)))"
proof -
  obtain ro s1 where info: "GetCompilerPackageInfo env (GOOS env) version s = (ro, s1)"
    by (cases "GetCompilerPackageInfo env (GOOS env) version s")
  show ?thesis
  proof (cases "\<exists>pkg fn. ro = Return (pkg, fn, None)")
    case False
    then have "new_events s s' = []"
      using CompilerFromNet_no_info [OF run info] by blast
    then show ?thesis by simp
  next
    case True
    then obtain pkg fn where ro: "ro = Return (pkg, fn, None)" by blast
    note R = CompilerFromNet_resolved [OF run info [unfolded ro]]
    show ?thesis
      using R(1) R(2) R(3) R(4) info [unfolded ro] by blast
  qed
qed

text \<open>
  With the network down the run ends at the failed fetch; with the network up the
  extraction follows the fetch.
\<close>

theorem fetch_discipline_witness:
  "fst (CompilerFromNet offline_env ''/cache'' ''3.10.4'' ''/dst'' (init_state []))
     = Return (Some (Wrap (Errorf ''connection refused'') ''failed to download package'')) \<and>
   \<not> list_ex is_Extract (new_events (init_state [])
        (snd (CompilerFromNet offline_env ''/cache'' ''3.10.4'' ''/dst'' (init_state [])))) \<and>
   EvExtract Untar ''/cache/pawnc-3.10.4-linux.tar.gz'' ''/dst''
       [(''pawnc-3.10.4-linux/bin/pawncc'', ''pawncc''),
        (''pawnc-3.10.4-linux/lib/libpawnc.so'', ''libpawnc.so'')] None
     \<in> set (new_events (init_state [])
        (snd (CompilerFromNet test_env ''/cache'' ''3.10.4'' ''/dst'' (init_state [])))) \<and>
   preceded (fetched ''/cache/pawnc-3.10.4-linux.tar.gz'') is_Extract
     (new_events (init_state [])
        (snd (CompilerFromNet test_env ''/cache'' ''3.10.4'' ''/dst'' (init_state []))))"
proof -
  let ?s = "init_state [] :: string list state"
  let ?off = "CompilerFromNet offline_env ''/cache'' ''3.10.4'' ''/dst'' ?s"
  let ?on = "CompilerFromNet test_env ''/cache'' ''3.10.4'' ''/dst'' ?s"
  have off: "EvFromNet
       ''https://github.com/Zeex/pawn/releases/download/v3.10.4/pawnc-3.10.4-linux.tar.gz''
       ''/cache'' ''pawnc-3.10.4-linux.tar.gz'' [] (Some (Errorf ''connection refused''))
     \<in> set (new_events ?s (snd ?off))"
    by code_simp
  have on: "EvExtract Untar ''/cache/pawnc-3.10.4-linux.tar.gz'' ''/dst''
       [(''pawnc-3.10.4-linux/bin/pawncc'', ''pawncc''),
        (''pawnc-3.10.4-linux/lib/libpawnc.so'', ''libpawnc.so'')] None
     \<in> set (new_events ?s (snd ?on))"
    by code_simp
  have 1: "?off = (fst ?off, snd ?off)" and 2: "?on = (fst ?on, snd ?on)" by simp_all
  from fetch_discipline [OF 1] off fetch_discipline [OF 2] on show ?thesis by blast
qed

section \<open>When the install directory is made\<close>

text \<open>
  What the code does ensure, in every run of \<open>GetCompilerPackage\<close>: the install directory
  is known to exist before the fetch and before the extraction of the network stage are
  called, and no directory is checked or made before the call of \<open>FromCache\<close>.
\<close>

lemma install_dir_ensured_by_net_stage:
  assumes run: "GetCompilerPackage env version dir s = (r, s')"
  shows "preceded (ensures dir) (\<lambda>e. is_FromNet e \<or> is_Extract e) (new_events s s') \<and>
         preceded is_FromCache is_dir_call (new_events s s')"
proof -
  let ?P = "EvPrint ''Downloading compiler package''"
  obtain d e s1 where g: "call_GetCacheDir env (emit ?P s) = ((d, e), s1)"
    by (metis prod.exhaust)
  then have t1: "trace s1 = trace s @ [?P, EvGetCacheDir d e]"
    by (auto simp: call_GetCacheDir_def emit_def split: prod.splits)
  show ?thesis
  proof (cases e)
    case (Some x)
    with run g have "s' = s1" by (simp add: GetCompilerPackage_def)
    with t1 show ?thesis by (simp add: new_events_def)
  next
    case None
    obtain rc s2 where c: "CompilerFromCache env d version dir s1 = (rc, s2)"
      by (metis prod.exhaust)
    from CompilerFromCache_events [OF c] obtain cev
      where t2: "trace s2 = trace s1 @ cev" and cev: "list_all is_FromCache cev" by blast
    show ?thesis
    proof (cases "rc = Return (False, None)")
      case True
      from CompilerFromCache_no_error [OF c [unfolded True]] obtain ev
        where t2': "trace s2 = trace s1 @ [ev]" and ev: "is_FromCache ev" by blast
      obtain rn s3 where n: "CompilerFromNet env d version dir s2 = (rn, s3)"
        by (metis prod.exhaust)
      from run g None c True n have s': "s' = s3"
        by (auto simp: GetCompilerPackage_def split: outcome.splits option.splits)
      from CompilerFromNet_install_dir(3) [OF n] obtain nev
        where t3: "trace s3 = trace s2 @ nev" by blast
      then have nev: "new_events s2 s3 = nev" by (simp add: new_events_def)
      have all: "new_events s s' = [?P, EvGetCacheDir d e, ev] @ nev"
        using t1 t2' t3 s' by (simp add: new_events_def)
      have "preceded (ensures dir) (\<lambda>e. is_FromNet e \<or> is_Extract e) nev"
        using CompilerFromNet_install_dir(1) [OF n] nev by simp
      then have "preceded (ensures dir) (\<lambda>e. is_FromNet e \<or> is_Extract e) (new_events s s')"
        unfolding all using FromCache_event_kinds [OF ev, of dir]
        by (subst preceded_skip) simp_all
      moreover have "preceded is_FromCache is_dir_call (new_events s s')"
        unfolding all using ev by simp
      ultimately show ?thesis by simp
    next
      case False
      with run g None c have s': "s' = s2"
        by (auto simp: GetCompilerPackage_def split: outcome.splits option.splits if_splits)
      have all: "new_events s s' = [?P, EvGetCacheDir d e] @ cev"
        using t1 t2 s' by (simp add: new_events_def)
      have k: "list_all (\<lambda>e. \<not> ensures dir e \<and> \<not> (is_FromNet e \<or> is_Extract e)) cev"
        "list_all (\<lambda>e. \<not> is_dir_call e) cev"
        using cev FromCache_event_kinds by (auto simp: list_all_iff)
      have "preceded (ensures dir) (\<lambda>e. is_FromNet e \<or> is_Extract e) (new_events s s')"
        unfolding all using preceded_skip [OF k(1), of "[]"] by simp
      moreover have "preceded is_FromCache is_dir_call (new_events s s')"
        unfolding all using preceded_none [OF k(2), of is_FromCache] by simp
      ultimately show ?thesis by simp
    qed
  qed
qed

text \<open>
  C5, at the input where the code departs from it: the archive is in the cache and the
  install directory \<^verbatim>\<open>/dst\<close> does not exist. The run is the print, \<open>GetCacheDir\<close> and
  \<open>FromCache\<close>, which is handed \<^verbatim>\<open>/dst\<close> and the extraction method; it returns nil, and at
  no point was \<^verbatim>\<open>/dst\<close> checked or made. \<open>CompilerFromNet\<close> does check and make it
  (lines 147 to 152) before it extracts; the cache path does not.
\<close>

theorem install_dir_not_ensured_before_cache:
  "fst (GetCompilerPackage test_env ''3.10.4'' ''/dst''
          (init_state [''/cache/pawnc-3.10.4-linux.tar.gz''])) = Return None \<and>
   new_events (init_state [''/cache/pawnc-3.10.4-linux.tar.gz''])
     (snd (GetCompilerPackage test_env ''3.10.4'' ''/dst''
          (init_state [''/cache/pawnc-3.10.4-linux.tar.gz''])))
    = [EvPrint ''Downloading compiler package'', EvGetCacheDir ''/cache'' None,
       EvFromCache ''/cache'' ''pawnc-3.10.4-linux.tar.gz'' ''/dst'' (Some Untar)
         [(''pawnc-3.10.4-linux/bin/pawncc'', ''pawncc''),
          (''pawnc-3.10.4-linux/lib/libpawnc.so'', ''libpawnc.so'')] True None] \<and>
   \<not> list_ex (ensures ''/dst'')
       (new_events (init_state [''/cache/pawnc-3.10.4-linux.tar.gz''])
          (snd (GetCompilerPackage test_env ''3.10.4'' ''/dst''
             (init_state [''/cache/pawnc-3.10.4-linux.tar.gz''])))) \<and>
   \<not> preceded (ensures ''/dst'') is_FromCache
       (new_events (init_state [''/cache/pawnc-3.10.4-linux.tar.gz''])
          (snd (GetCompilerPackage test_env ''3.10.4'' ''/dst''
             (init_state [''/cache/pawnc-3.10.4-linux.tar.gz''])))) \<and>
   \<not> preceded (ensures ''/dst'') is_FromCache
       (new_events (init_state [])
          (snd (GetCompilerPackage test_env ''3.10.4'' ''/dst'' (init_state []))))"
  by code_simp

section \<open>The catalogue\<close>

text \<open>
  C9. A call of \<open>GetCompilerPackageInfo\<close>, with any \<open>os\<close> and \<open>version\<close>, whether it
  returns or panics, leaves the three package-level variables as they were, and the
  content of the maps they refer to as it was: the function works on a copy of the
  struct and writes into a map it has just made.
\<close>

theorem catalog_never_mutated:
  assumes "catalog_allocated s"
    and "GetCompilerPackageInfo env os version s = (r, s')"
  shows "pawnMacOS s' = pawnMacOS s \<and> pawnLinux s' = pawnLinux s \<and>
         pawnWin32 s' = pawnWin32 s \<and>
         deref s' (Paths (pawnMacOS s')) = deref s (Paths (pawnMacOS s)) \<and>
         deref s' (Paths (pawnLinux s')) = deref s (Paths (pawnLinux s)) \<and>
         deref s' (Paths (pawnWin32 s')) = deref s (Paths (pawnWin32 s)) \<and>
         catalog_allocated s'"
  using assms(1) GetCompilerPackageInfo_frame [OF assms(2)]
  by (auto simp: catalog_allocated_def deref_def split: option.splits)

text \<open>After a call for linux the catalogue entry still holds the templates.\<close>

theorem catalog_never_mutated_witness:
  "catalog_allocated (init_state [] :: string list state) \<and>
   pawnLinux (snd (GetCompilerPackageInfo test_env ''linux'' ''3.10.4'' (init_state [])))
     = pawnLinux (init_state [] :: string list state) \<and>
   deref (snd (GetCompilerPackageInfo test_env ''linux'' ''3.10.4'' (init_state [])))
      (Paths (pawnLinux
         (snd (GetCompilerPackageInfo test_env ''linux'' ''3.10.4'' (init_state [])))))
     = linux_paths \<and>
   deref (snd (GetCompilerPackageInfo test_env ''linux'' ''3.10.4'' (init_state [])))
      (Paths (fst (case fst (GetCompilerPackageInfo test_env ''linux'' ''3.10.4'' (init_state []))
                   of Return x \<Rightarrow> x)))
     = [(''pawnc-3.10.4-linux/bin/pawncc'', ''pawncc''),
        (''pawnc-3.10.4-linux/lib/libpawnc.so'', ''libpawnc.so'')]"
proof -
  let ?s = "init_state [] :: string list state"
  let ?g = "GetCompilerPackageInfo test_env ''linux'' ''3.10.4'' ?s"
  have a: "catalog_allocated ?s" by code_simp
  have b: "?g = (fst ?g, snd ?g)" by simp
  have c: "deref (snd ?g) (Paths (fst (case fst ?g of Return x \<Rightarrow> x)))
     = [(''pawnc-3.10.4-linux/bin/pawncc'', ''pawncc''),
        (''pawnc-3.10.4-linux/lib/libpawnc.so'', ''libpawnc.so'')]" by code_simp
  have d: "deref ?s (Paths (pawnLinux ?s)) = linux_paths" by code_simp
  from catalog_never_mutated [OF a b] have e: "pawnLinux (snd ?g) = pawnLinux ?s"
    and f: "deref (snd ?g) (Paths (pawnLinux (snd ?g))) = deref ?s (Paths (pawnLinux ?s))"
    by blast+
  show ?thesis by (intro conjI a e c trans [OF f d])
qed

text \<open>
  C4, at the input where the code departs from it: on a linux host, asked for the
  platform \<open>freebsd\<close>, \<open>GetCompilerPackageInfo\<close> returns at once, the state unchanged,
  with the error \<open>unsupported OS linux\<close>. The message is built from \<^verbatim>\<open>runtime.GOOS\<close>
  (line 83), not from the parameter \<open>os\<close> that was tested.
\<close>

theorem unsupported_os_names_host:
  "GetCompilerPackageInfo test_env ''freebsd'' ''3.10.4'' (init_state [])
     = (Return (zero_CompilerPackage, [], Some (Errorf ''unsupported OS linux'')), init_state [])"
  by (simp add: GetCompilerPackageInfo_def select_package_def test_env_def)

section \<open>Malformed templates\<close>

text \<open>
  C6 as stated: a malformed template makes \<open>GetCompilerPackageInfo\<close> return an error. With
  a locator whose action is not closed the call does not return an error: it panics, in
  \<^verbatim>\<open>template.Must\<close>.
\<close>

theorem malformed_template_counterexample:
  "fst (GetCompilerPackageInfo test_env ''linux'' ''3.10.4'' broken_state) = Panic ParseFailure \<and>
   \<not> returns_error (fst (GetCompilerPackageInfo test_env ''linux'' ''3.10.4'' broken_state))"
  by code_simp

text \<open>
  When no template of the descriptor is outside the fragment, a template on which
  \<open>expand\<close> panics makes the whole call panic.
\<close>

lemma malformed_template_panics:
  assumes sel: "select_package s os = Some pkg"
    and bad: "t \<in> set (templates_of s pkg)" "expand t version = Panic p"
    and inside: "list_all (\<lambda>t. expand t version \<noteq> OutsideModel) (templates_of s pkg)"
  shows "\<exists>p'. fst (GetCompilerPackageInfo env os version s) = Panic p'"
proof (cases "expand (URL pkg) version")
  case (Panic q)
  with sel show ?thesis by (simp add: GetCompilerPackageInfo_def)
next
  case OutsideModel
  with inside show ?thesis by (simp add: templates_of_def)
next
  case (Return u)
  let ?es = "deref s (Paths pkg)"
  from bad Return have "t \<in> set (map fst ?es @ map snd ?es)"
    by (auto simp: templates_of_def)
  with bad(2) have 1: "list_ex (\<lambda>t. \<exists>p. expand t version = Panic p) (map fst ?es @ map snd ?es)"
    unfolding list_ex_iff by blast
  from inside have 2: "list_all (\<lambda>t. expand t version \<noteq> OutsideModel) (map fst ?es @ map snd ?es)"
    by (simp add: templates_of_def)
  from resolve_paths_panics [OF 1 2] obtain q s' where
    "resolve_paths version (next_map s) ?es
       (s\<lparr>maps := (maps s)(next_map s := []), next_map := Suc (next_map s)\<rparr>) = (Panic q, s')"
    by blast
  with sel Return show ?thesis
    by (simp add: GetCompilerPackageInfo_def Let_def)
qed

text \<open>
  C6, amended. An error \<open>GetCompilerPackageInfo\<close> returns is the error for an unsupported
  platform or the error of \<^verbatim>\<open>url.Parse\<close>: never one of a template. When the first action
  of the locator is opened and never closed the call panics with the parse error, in the
  state it was given. When any template of the descriptor (locator, key or value) is
  rejected by the engine, for an action never closed or for a field the data does not
  have, the call does not return; and it is a panic that ends it when every template of
  the descriptor lies in the fragment covered here.
\<close>

theorem template_error_never_returned:
  "(GetCompilerPackageInfo env os version s = (Return (pkg', fn, Some e), s') \<longrightarrow>
      (select_package s os = None \<and> e = Errorf (''unsupported OS '' @ GOOS env)) \<or>
      url_Parse_Path env (URL pkg') = Inl e) \<and>
   (select_package s os = Some pkg \<and> split_at ''{{'' (URL pkg) = Some (lit, tail) \<and>
    split_at ''}}'' tail = None \<longrightarrow>
      GetCompilerPackageInfo env os version s = (Panic ParseFailure, s)) \<and>
   (select_package s os = Some pkg \<and> t \<in> set (templates_of s pkg) \<and> engine_rejects t \<longrightarrow>
      (\<forall>r. fst (GetCompilerPackageInfo env os version s) \<noteq> Return r)) \<and>
   (select_package s os = Some pkg \<and> t \<in> set (templates_of s pkg) \<and> engine_rejects t \<and>
    list_all (\<lambda>t. expand t version \<noteq> OutsideModel) (templates_of s pkg) \<longrightarrow>
      (\<exists>p. fst (GetCompilerPackageInfo env os version s) = Panic p))"
proof (intro conjI impI)
  assume "GetCompilerPackageInfo env os version s = (Return (pkg', fn, Some e), s')"
  then show "(select_package s os = None \<and> e = Errorf (''unsupported OS '' @ GOOS env)) \<or>
      url_Parse_Path env (URL pkg') = Inl e" by (rule returned_errors)
next
  assume "select_package s os = Some pkg \<and> split_at ''{{'' (URL pkg) = Some (lit, tail) \<and>
    split_at ''}}'' tail = None"
  then show "GetCompilerPackageInfo env os version s = (Panic ParseFailure, s)"
    using unclosed_locator by blast
next
  assume a: "select_package s os = Some pkg \<and> t \<in> set (templates_of s pkg) \<and> engine_rejects t"
  show "\<forall>r. fst (GetCompilerPackageInfo env os version s) \<noteq> Return r"
  proof (intro allI notI)
    fix r assume "fst (GetCompilerPackageInfo env os version s) = Return r"
    from info_Return [OF _ this] a obtain u where "expand t version = Return u"
      by (auto simp: list_all_iff)
    with expand_rejected a show False by blast
  qed
next
  assume a: "select_package s os = Some pkg \<and> t \<in> set (templates_of s pkg) \<and> engine_rejects t \<and>
    list_all (\<lambda>t. expand t version \<noteq> OutsideModel) (templates_of s pkg)"
  then have "expand t version \<noteq> OutsideModel" by (auto simp: list_all_iff)
  moreover have "\<forall>u. expand t version \<noteq> Return u" using expand_rejected a by blast
  ultimately obtain p where "expand t version = Panic p" by (cases "expand t version") auto
  with a malformed_template_panics [of s os pkg t version p env] show
    "\<exists>p. fst (GetCompilerPackageInfo env os version s) = Panic p" by blast
qed

text \<open>
  A version with a bad escape, for which \<^verbatim>\<open>url.Parse\<close> fails; the unclosed locator; a key
  with a misspelt field.
\<close>

theorem template_error_never_returned_witness:
  "fst (GetCompilerPackageInfo test_env ''linux'' ''3.10.4%zz'' (init_state []))
     = Return (\<lparr>URL = ''https://github.com/Zeex/pawn/releases/download/v3.10.4%zz/pawnc-3.10.4%zz-linux.tar.gz'',
                Method = Some Untar, Paths = Some 3\<rparr>, [], Some (Errorf ''invalid URL escape'')) \<and>
   url_Parse_Path test_env
       ''https://github.com/Zeex/pawn/releases/download/v3.10.4%zz/pawnc-3.10.4%zz-linux.tar.gz''
     = Inl (Errorf ''invalid URL escape'') \<and>
   GetCompilerPackageInfo test_env ''linux'' ''3.10.4'' broken_state
     = (Panic ParseFailure, broken_state) \<and>
   engine_rejects ''pawnc-{{.Versoin}}-linux/lib/libpawnc.so'' \<and>
   fst (GetCompilerPackageInfo test_env ''linux'' ''3.10.4'' broken_key_state)
     = Panic (ExecFailure ''Versoin'')"
proof -
  let ?s = "init_state [] :: string list state"
  let ?U = "''https://github.com/Zeex/pawn/releases/download/v3.10.4%zz/pawnc-3.10.4%zz-linux.tar.gz''"
  let ?pkg = "\<lparr>URL = ?U, Method = Some Untar, Paths = Some 3\<rparr>"
  let ?g = "GetCompilerPackageInfo test_env ''linux'' ''3.10.4%zz'' ?s"
  let ?t = "''pawnc-{{.Versoin}}-linux/lib/libpawnc.so''"
  have g: "fst ?g = Return (?pkg, [], Some (Errorf ''invalid URL escape''))" by code_simp
  then have g': "?g = (Return (?pkg, [], Some (Errorf ''invalid URL escape'')), snd ?g)"
    by (metis prod.collapse)
  have sel: "select_package ?s ''linux'' \<noteq> None" by (simp add: select_package_def)
  from template_error_never_returned
    [where env = test_env and os = "''linux''" and version = "''3.10.4%zz''" and s = ?s
       and pkg' = ?pkg and fn = "[]" and e = "Errorf ''invalid URL escape''" and s' = "snd ?g"]
    g' sel
  have 1: "url_Parse_Path test_env ?U = Inl (Errorf ''invalid URL escape'')" by auto
  have b: "select_package broken_state ''linux'' = Some (pawnLinux broken_state)"
    by (simp add: select_package_def)
  have c: "split_at ''{{'' (URL (pawnLinux broken_state))
             = Some (''https://example.org/pawnc-'', ''.Version-linux.tar.gz'')"
    by code_simp
  have d: "split_at ''}}'' ''.Version-linux.tar.gz'' = None" by code_simp
  from template_error_never_returned
    [where env = test_env and os = "''linux''" and version = "''3.10.4''"
       and s = broken_state and pkg = "pawnLinux broken_state"
       and lit = "''https://example.org/pawnc-''" and tail = "''.Version-linux.tar.gz''"]
    b c d
  have 2: "GetCompilerPackageInfo test_env ''linux'' ''3.10.4'' broken_state
     = (Panic ParseFailure, broken_state)" by blast
  have k: "select_package broken_key_state ''linux'' = Some (pawnLinux broken_key_state)"
    by (simp add: select_package_def)
  have m: "?t \<in> set (templates_of broken_key_state (pawnLinux broken_key_state))" by code_simp
  have r: "engine_rejects ?t" by code_simp
  have i: "list_all (\<lambda>t. expand t ''3.10.4'' \<noteq> OutsideModel)
     (templates_of broken_key_state (pawnLinux broken_key_state))" by code_simp
  from template_error_never_returned
    [where env = test_env and os = "''linux''" and version = "''3.10.4''"
       and s = broken_key_state and pkg = "pawnLinux broken_key_state" and t = ?t]
    k m r i
  have 3: "\<exists>p. fst (GetCompilerPackageInfo test_env ''linux'' ''3.10.4'' broken_key_state) = Panic p"
    by blast
  have 4: "fst (GetCompilerPackageInfo test_env ''linux'' ''3.10.4'' broken_key_state)
     = Panic (ExecFailure ''Versoin'')" by code_simp
  show ?thesis using g 1 2 r 4 by blast
qed

section \<open>What is substituted for the placeholder\<close>

text \<open>
  C3, at the input where the code departs from it: for the version \<open>3.10.4+1\<close> the
  locator and the keys of the path map that \<open>GetCompilerPackageInfo\<close> returns hold
  \<^verbatim>\<open>3.10.4&#43;1\<close> where the placeholder stood; replacing the placeholder by the version
  string as it is gives \<^verbatim>\<open>3.10.4+1\<close> there. The templates are run by \<^verbatim>\<open>html/template\<close>,
  which escapes what it inserts. The \<^verbatim>\<open>#\<close> of the escape then starts the fragment of the
  URL, so the file name, the base of the URL's path, is \<^verbatim>\<open>v3.10.4&\<close>.
\<close>

theorem version_is_html_escaped:
  "fst (GetCompilerPackageInfo test_env ''linux'' ''3.10.4+1'' (init_state []))
     = Return (\<lparr>URL = ''https://github.com/Zeex/pawn/releases/download/v3.10.4&#43;1/pawnc-3.10.4&#43;1-linux.tar.gz'',
                Method = Some Untar, Paths = Some 3\<rparr>,
               ''v3.10.4&'', None) \<and>
   maps (snd (GetCompilerPackageInfo test_env ''linux'' ''3.10.4+1'' (init_state []))) 3
     = [(''pawnc-3.10.4&#43;1-linux/bin/pawncc'', ''pawncc''),
        (''pawnc-3.10.4&#43;1-linux/lib/libpawnc.so'', ''libpawnc.so'')] \<and>
   spec_resolve linux_url ''3.10.4+1''
     = ''https://github.com/Zeex/pawn/releases/download/v3.10.4+1/pawnc-3.10.4+1-linux.tar.gz'' \<and>
   map (\<lambda>(k, v). (spec_resolve k ''3.10.4+1'', spec_resolve v ''3.10.4+1'')) linux_paths
     = [(''pawnc-3.10.4+1-linux/bin/pawncc'', ''pawncc''),
        (''pawnc-3.10.4+1-linux/lib/libpawnc.so'', ''libpawnc.so'')]"
  by code_simp

text \<open>
  C8. With the catalogue as initialised, for each of the three platforms and every version
  string in which the placeholder \<^verbatim>\<open>{{.Version}}\<close> does not occur,
  \<open>GetCompilerPackageInfo\<close> returns, and the placeholder occurs neither in the resolved
  locator nor in any key or value of the resolved path map, which has its two entries.
\<close>

theorem no_placeholder_remains:
  assumes "catalog_intact s"
    and "\<not> contains placeholder version"
    and "os = ''windows'' \<or> os = ''linux'' \<or> os = ''darwin''"
    and "GetCompilerPackageInfo env os version s = (r, s')"
  shows "\<exists>pkg fn err. r = Return (pkg, fn, err) \<and>
           \<not> contains placeholder (URL pkg) \<and>
           length (deref s' (Paths pkg)) = 2 \<and>
           list_all (\<lambda>(k, v). \<not> contains placeholder k \<and> \<not> contains placeholder v)
             (deref s' (Paths pkg))"
proof -
  from resolved_clean [OF assms(1-3), of env] obtain U m K1 V1 K2 V2 fn err where
    run: "GetCompilerPackageInfo env os version s =
     (Return (\<lparr>URL = U, Method = m, Paths = Some (next_map s)\<rparr>, fn, err),
      s\<lparr>maps := (maps s)(next_map s := [(K1, V1), (K2, V2)]),
        next_map := Suc (next_map s)\<rparr>)"
    and clean: "\<not> contains placeholder U" "\<not> contains placeholder K1"
      "\<not> contains placeholder V1" "\<not> contains placeholder K2" "\<not> contains placeholder V2"
    by blast
  from run assms(4) have r: "r = Return (\<lparr>URL = U, Method = m, Paths = Some (next_map s)\<rparr>, fn, err)"
    and s': "s' = s\<lparr>maps := (maps s)(next_map s := [(K1, V1), (K2, V2)]),
        next_map := Suc (next_map s)\<rparr>" by simp_all
  have "deref s' (Some (next_map s)) = [(K1, V1), (K2, V2)]"
    by (simp add: s' deref_def)
  with r clean show ?thesis by simp
qed

theorem no_placeholder_remains_witness:
  "catalog_intact (init_state [] :: string list state) \<and>
   \<not> contains placeholder ''3.10.4'' \<and>
   fst (GetCompilerPackageInfo test_env ''linux'' ''3.10.4'' (init_state []))
     = Return (\<lparr>URL =
         ''https://github.com/Zeex/pawn/releases/download/v3.10.4/pawnc-3.10.4-linux.tar.gz'',
         Method = Some Untar, Paths = Some 3\<rparr>, ''pawnc-3.10.4-linux.tar.gz'', None) \<and>
   \<not> contains placeholder
       ''https://github.com/Zeex/pawn/releases/download/v3.10.4/pawnc-3.10.4-linux.tar.gz'' \<and>
   list_all (\<lambda>(k, v). \<not> contains placeholder k \<and> \<not> contains placeholder v)
     (deref (snd (GetCompilerPackageInfo test_env ''linux'' ''3.10.4'' (init_state [])))
        (Some 3))"
proof -
  let ?s = "init_state [] :: string list state"
  let ?g = "GetCompilerPackageInfo test_env ''linux'' ''3.10.4'' ?s"
  have a: "catalog_intact ?s" by code_simp
  have b: "\<not> contains placeholder ''3.10.4''" by code_simp
  have c: "''linux'' = ''windows'' \<or> ''linux'' = ''linux'' \<or> ''linux'' = ''darwin''" by simp
  have d: "?g = (fst ?g, snd ?g)" by simp
  have e: "fst ?g = Return (\<lparr>URL =
         ''https://github.com/Zeex/pawn/releases/download/v3.10.4/pawnc-3.10.4-linux.tar.gz'',
         Method = Some Untar, Paths = Some 3\<rparr>, ''pawnc-3.10.4-linux.tar.gz'', None)"
    by code_simp
  from no_placeholder_remains [OF a b c d] e a b show ?thesis by auto
qed

end
